theory Spec2Isabelle
  imports Complex_Main
begin

section \<open>RateLimiter (rate-limiter module)\<close>

text \<open>
  The limiter's configuration and state. Delays and the requests-per-minute ceiling are
  JavaScript numbers that \<open>adaptiveLimit\<close> halves and multiplies by 1.5, so they are
  rationals here; the two counters are integers, time stamps are milliseconds.
\<close>

record limiter_config =
  baseDelay :: rat
  maxDelay :: rat
  jitter :: rat
  requestsPerMinute :: rat
  concurrentRequests :: int

text \<open>The constructor's argument: every key may be missing.\<close>

record limiter_options =
  opt_baseDelay :: "rat option"
  opt_maxDelay :: "rat option"
  opt_jitter :: "rat option"
  opt_requestsPerMinute :: "rat option"
  opt_concurrentRequests :: "int option"

record RateLimiter =
  config :: limiter_config
  requestTimestamps :: "int list"
  activeRequests :: int
  consecutiveFailures :: nat
  backoffMultiplier :: rat

text \<open>
  \<open>{ baseDelay: config.baseDelay || 2000, ..., ...config }\<close>: the spread comes last, so
  a key that is present wins whatever its value, and a missing key gets the default.
\<close>

definition new_RateLimiter :: "limiter_options \<Rightarrow> RateLimiter" where
  "new_RateLimiter c =
     \<lparr> config =
         \<lparr> baseDelay = (case opt_baseDelay c of None \<Rightarrow> 2000 | Some v \<Rightarrow> v),
           maxDelay = (case opt_maxDelay c of None \<Rightarrow> 10000 | Some v \<Rightarrow> v),
           jitter = (case opt_jitter c of None \<Rightarrow> 1000 | Some v \<Rightarrow> v),
           requestsPerMinute = (case opt_requestsPerMinute c of None \<Rightarrow> 30 | Some v \<Rightarrow> v),
           concurrentRequests = (case opt_concurrentRequests c of None \<Rightarrow> 5 | Some v \<Rightarrow> v) \<rparr>,
       requestTimestamps = [],
       activeRequests = 0,
       consecutiveFailures = 0,
       backoffMultiplier = 1 \<rparr>"

definition no_options :: limiter_options where
  "no_options =
     \<lparr> opt_baseDelay = None, opt_maxDelay = None, opt_jitter = None,
       opt_requestsPerMinute = None, opt_concurrentRequests = None \<rparr>"

text \<open>
  \<open>canMakeRequest\<close> reads the clock (\<open>now\<close>), and on its second check it replaces the list
  of time stamps by the ones younger than a minute; the early return leaves it alone.
\<close>

definition canMakeRequest :: "int \<Rightarrow> RateLimiter \<Rightarrow> bool \<times> RateLimiter" where
  "canMakeRequest now st =
     (if activeRequests st \<ge> concurrentRequests (config st) then (False, st)
      else
        let oneMinuteAgo = now - 60000;
            st' = st\<lparr> requestTimestamps :=
                        filter (\<lambda>timestamp. timestamp > oneMinuteAgo) (requestTimestamps st) \<rparr>
        in if of_nat (length (requestTimestamps st')) \<ge> requestsPerMinute (config st')
           then (False, st')
           else (True, st'))"

definition addRequestTimestamp :: "int \<Rightarrow> RateLimiter \<Rightarrow> RateLimiter" where
  "addRequestTimestamp now st =
     st\<lparr> requestTimestamps := requestTimestamps st @ [now],
         activeRequests := activeRequests st + 1 \<rparr>"

definition completeRequest :: "RateLimiter \<Rightarrow> RateLimiter" where
  "completeRequest st = st\<lparr> activeRequests := max 0 (activeRequests st - 1) \<rparr>"

text \<open>
  \<open>calculateDelay\<close> returns the delay and, on a failure streak, also raises the
  back-off multiplier.
\<close>

definition calculateDelay :: "RateLimiter \<Rightarrow> rat \<times> RateLimiter" where
  "calculateDelay st =
     (let delay = baseDelay (config st) in
      if consecutiveFailures st > 0
      then (min (delay * 2 ^ (min (consecutiveFailures st) 5)) (maxDelay (config st)),
            st\<lparr> backoffMultiplier := min 10 (backoffMultiplier st * (3 / 2)) \<rparr>)
      else (min delay (maxDelay (config st)), st))"

definition recordSuccess :: "RateLimiter \<Rightarrow> RateLimiter" where
  "recordSuccess st = st\<lparr> consecutiveFailures := 0, backoffMultiplier := 1 \<rparr>"

definition recordFailure :: "RateLimiter \<Rightarrow> RateLimiter" where
  "recordFailure st = st\<lparr> consecutiveFailures := consecutiveFailures st + 1 \<rparr>"

definition reset :: "RateLimiter \<Rightarrow> RateLimiter" where
  "reset st =
     st\<lparr> requestTimestamps := [], activeRequests := 0,
         consecutiveFailures := 0, backoffMultiplier := 1 \<rparr>"

text \<open>
  The signal of \<open>adaptiveLimit\<close>: two flags tested for truthiness and a success rate
  that may be missing (\<open>undefined < 0.5\<close> is false).
\<close>

record conditions =
  captchaDetected :: bool
  ipBlocked :: bool
  successRate :: "rat option"

definition adaptiveLimit :: "conditions \<Rightarrow> RateLimiter \<Rightarrow> RateLimiter" where
  "adaptiveLimit c st =
     (let cfg1 = (if captchaDetected c
                  then (config st)\<lparr> baseDelay := min (baseDelay (config st) * 2) 10000,
                                    requestsPerMinute := max 5 (requestsPerMinute (config st) / 2) \<rparr>
                  else config st);
          cfg2 = (if ipBlocked c
                  then cfg1\<lparr> baseDelay := 10000, requestsPerMinute := 1 \<rparr>
                  else cfg1);
          cfg3 = (if (case successRate c of None \<Rightarrow> False | Some r \<Rightarrow> r < 1 / 2)
                  then cfg2\<lparr> baseDelay := min (baseDelay cfg2 * (3 / 2)) 5000 \<rparr>
                  else cfg2)
      in st\<lparr> config := cfg3 \<rparr>)"

text \<open>A call of one of the limiter's methods, and a sequence of calls run in order.\<close>

datatype limiter_call =
    CanMakeRequest int
  | AddRequestTimestamp int
  | CompleteRequest
  | CalculateDelay
  | RecordSuccess
  | RecordFailure
  | Reset
  | AdaptiveLimit conditions

fun limiter_step :: "RateLimiter \<Rightarrow> limiter_call \<Rightarrow> RateLimiter" where
  "limiter_step st (CanMakeRequest now) = snd (canMakeRequest now st)"
| "limiter_step st (AddRequestTimestamp now) = addRequestTimestamp now st"
| "limiter_step st CompleteRequest = completeRequest st"
| "limiter_step st CalculateDelay = snd (calculateDelay st)"
| "limiter_step st RecordSuccess = recordSuccess st"
| "limiter_step st RecordFailure = recordFailure st"
| "limiter_step st Reset = reset st"
| "limiter_step st (AdaptiveLimit c) = adaptiveLimit c st"

definition limiter_run :: "RateLimiter \<Rightarrow> limiter_call list \<Rightarrow> RateLimiter" where
  "limiter_run st calls = foldl limiter_step st calls"


section \<open>Car records\<close>

text \<open>
  A car record as \<open>scrapeCarDetails\<close> builds it and \<open>applySecurityTransformations\<close>
  extends it. Every key is optional (\<open>None\<close>: the key is missing). Values have the types
  the scraper stores: strings, whole numbers, lists of strings, and nested objects that
  are records of optional keys again. A price object is either the scraped one or the
  blob \<open>encryptData\<close> returns, so it carries the keys of both.
\<close>

record price_obj =
  starting_msrp :: "int option"
  max_price :: "int option"
  price_range :: "string option"
  is_estimated :: "bool option"
  encrypted :: "string option"
  iv :: "string option"
  authTag :: "string option"
  algorithm :: "string option"

record performance_obj =
  horsepower :: "int option"
  torque :: "int option"
  acceleration_0_60 :: "rat option"
  engine :: "string option"

record specifications_obj =
  transmission :: "string option"
  drivetrain :: "string option"
  fuel_type :: "string option"

record dimensions_obj =
  length_in :: "string option"
  width :: "string option"
  height :: "string option"
  wheelbase :: "string option"

record fuel_economy_obj =
  city :: "int option"
  highway :: "int option"
  combined :: "int option"

record car =
  vehicle_type :: "string option"
  manufacturer :: "string option"
  model :: "string option"
  year :: "int option"
  price :: "price_obj option"
  performance :: "performance_obj option"
  features :: "string list option"
  specifications :: "specifications_obj option"
  dimensions :: "dimensions_obj option"
  fuel_economy :: "fuel_economy_obj option"
  safety_ratings :: "(string \<times> string) list option"
  scraped_at :: "string option"
  value_score :: "int option"
  session_id :: "string option"
  security_flags :: "string list option"
  data_hash :: "string option"
  data_quality :: "int option"

definition empty_price :: price_obj where
  "empty_price =
     \<lparr> starting_msrp = None, max_price = None, price_range = None, is_estimated = None,
       encrypted = None, iv = None, authTag = None, algorithm = None \<rparr>"

definition empty_performance :: performance_obj where
  "empty_performance =
     \<lparr> horsepower = None, torque = None, acceleration_0_60 = None, engine = None \<rparr>"

definition empty_specifications :: specifications_obj where
  "empty_specifications = \<lparr> transmission = None, drivetrain = None, fuel_type = None \<rparr>"

definition empty_dimensions :: dimensions_obj where
  "empty_dimensions = \<lparr> length_in = None, width = None, height = None, wheelbase = None \<rparr>"

definition empty_fuel_economy :: fuel_economy_obj where
  "empty_fuel_economy = \<lparr> city = None, highway = None, combined = None \<rparr>"

text \<open>The object \<open>{}\<close>.\<close>

definition empty_car :: car where
  "empty_car =
     \<lparr> vehicle_type = None, manufacturer = None, model = None, year = None, price = None,
       performance = None, features = None, specifications = None, dimensions = None,
       fuel_economy = None, safety_ratings = None, scraped_at = None, value_score = None,
       session_id = None, security_flags = None, data_hash = None, data_quality = None \<rparr>"

text \<open>JavaScript truthiness of an optional string and of an optional number.\<close>

definition truthy_str :: "string option \<Rightarrow> bool" where
  "truthy_str v = (case v of None \<Rightarrow> False | Some s \<Rightarrow> s \<noteq> [])"

definition truthy_num :: "int option \<Rightarrow> bool" where
  "truthy_num v = (case v of None \<Rightarrow> False | Some n \<Rightarrow> n \<noteq> 0)"

text \<open>\<open>Object.keys(o).length\<close> for the nested objects the score looks at.\<close>

definition count_keys :: "bool list \<Rightarrow> nat" where
  "count_keys present = length (filter (\<lambda>b. b) present)"

definition price_keys :: "price_obj \<Rightarrow> nat" where
  "price_keys p =
     count_keys [starting_msrp p \<noteq> None, max_price p \<noteq> None, price_range p \<noteq> None,
                 is_estimated p \<noteq> None, encrypted p \<noteq> None, iv p \<noteq> None,
                 authTag p \<noteq> None, algorithm p \<noteq> None]"

definition performance_keys :: "performance_obj \<Rightarrow> nat" where
  "performance_keys p =
     count_keys [horsepower p \<noteq> None, torque p \<noteq> None, acceleration_0_60 p \<noteq> None,
                 engine p \<noteq> None]"

definition specifications_keys :: "specifications_obj \<Rightarrow> nat" where
  "specifications_keys p =
     count_keys [transmission p \<noteq> None, drivetrain p \<noteq> None, fuel_type p \<noteq> None]"

section \<open>DataValidator (validator module)\<close>

subsection \<open>Strings\<close>

text \<open>
  Characters are code units below 256. White space is what \<open>trim\<close> and \<open>\s\<close> accept
  there (tab, line feed, vertical tab, form feed, carriage return, space, no-break space),
  a word character is what \<open>\w\<close> accepts, and the \<open>i\<close> flag folds the ASCII letters.
\<close>

definition is_space :: "char \<Rightarrow> bool" where
  "is_space c = (of_char c \<in> {9, 10, 11, 12, 13, 32, 160 :: nat})"

definition is_word :: "char \<Rightarrow> bool" where
  "is_word c =
     (c \<in> set ''abcdefghijklmnopqrstuvwxyzABCDEFGHIJKLMNOPQRSTUVWXYZ0123456789_'')"

definition lower :: "char \<Rightarrow> char" where
  "lower c = (let n = of_char c :: nat in if 65 \<le> n \<and> n \<le> 90 then char_of (n + 32) else c)"

definition trim :: "string \<Rightarrow> string" where
  "trim s = rev (dropWhile is_space (rev (dropWhile is_space s)))"

text \<open>\<open>input.trim().replace(/[<>"']/g, '').substring(0, 200)\<close>\<close>

definition sanitizeString :: "string \<Rightarrow> string" where
  "sanitizeString input =
     take 200 (filter (\<lambda>c. c \<notin> {CHR ''<'', CHR ''>'', CHR 0x22, CHR 0x27}) (trim input))"

subsection \<open>The five patterns of removeMaliciousContent\<close>

text \<open>
  A pattern is given by its matcher: the length of the match that starts at the head of
  the string, if there is one. \<open>p\<close> in \<open>ci_prefix\<close> is written in lower case.
\<close>

definition ci_prefix :: "string \<Rightarrow> string \<Rightarrow> bool" where
  "ci_prefix p s = (length p \<le> length s \<and> map lower (take (length p) s) = p)"

definition match_literal :: "string \<Rightarrow> string \<Rightarrow> nat option" where
  "match_literal p s = (if ci_prefix p s then Some (length p) else None)"

text \<open>The end of the first \<open></script>\<close> in the string.\<close>

fun find_close :: "string \<Rightarrow> nat option" where
  "find_close [] = None"
| "find_close (c # cs) =
     (if ci_prefix ''</script>'' (c # cs) then Some 9 else map_option Suc (find_close cs))"

text \<open>
  \<open>/<script\b[^<]*(?:(?!<\/script>)<[^<]*)*<\/script>/gi\<close>: after \<open><script\<close> and a word
  boundary, \<open>[^<]*\<close> runs to the next \<open><\<close>; the group takes a \<open><\<close> that does not open
  \<open></script>\<close> and runs on; so the match ends with the first \<open></script>\<close> that follows,
  and there is none if no \<open></script>\<close> follows.
\<close>

definition match_script :: "string \<Rightarrow> nat option" where
  "match_script s =
     (if ci_prefix ''<script'' s \<and> (case drop 7 s of [] \<Rightarrow> True | c # _ \<Rightarrow> \<not> is_word c)
      then map_option (\<lambda>k. 7 + k) (find_close (drop 7 s))
      else None)"

text \<open>
  \<open>/on\w+\s*=/gi\<close>: \<open>on\<close>, the whole run of word characters that follows (at least one),
  the whole run of white space, and \<open>=\<close>. Giving back part of a run cannot help: the
  next character would have to be white space or \<open>=\<close> and is a word character, or
  would have to be \<open>=\<close> and is white space.
\<close>

definition match_handler :: "string \<Rightarrow> nat option" where
  "match_handler s =
     (if ci_prefix ''on'' s then
        (let w = takeWhile is_word (drop 2 s);
             r = dropWhile is_word (drop 2 s);
             sp = takeWhile is_space r
         in if w \<noteq> [] \<and> (case dropWhile is_space r of [] \<Rightarrow> False | c # _ \<Rightarrow> c = CHR ''='')
            then Some (2 + length w + length sp + 1)
            else None)
      else None)"

definition maliciousPatterns :: "(string \<Rightarrow> nat option) list" where
  "maliciousPatterns =
     [match_script, match_literal ''javascript:'', match_handler,
      match_literal ''data:'', match_literal ''vbscript:'']"

text \<open>
  \<open>cleaned.replace(pattern, '')\<close> with the \<open>g\<close> flag: scan from the left, drop every
  match and go on behind it. The counter is the number of characters of the current
  match still to drop.
\<close>

fun replace_all :: "(string \<Rightarrow> nat option) \<Rightarrow> nat \<Rightarrow> string \<Rightarrow> string" where
  "replace_all m k [] = []"
| "replace_all m (Suc k) (c # cs) = replace_all m k cs"
| "replace_all m 0 (c # cs) =
     (case m (c # cs) of
        Some n \<Rightarrow> replace_all m (n - 1) cs
      | None \<Rightarrow> c # replace_all m 0 cs)"

definition clean_string :: "string \<Rightarrow> string" where
  "clean_string s = foldl (\<lambda>cleaned pattern. replace_all pattern 0 cleaned) s maliciousPatterns"

text \<open>
  \<open>cleanData\<close> walks the whole value: strings are cleaned, arrays and objects are
  rebuilt with the same keys, everything else is returned as it is.
\<close>

definition clean_price :: "price_obj \<Rightarrow> price_obj" where
  "clean_price p =
     p\<lparr> price_range := map_option clean_string (price_range p),
        encrypted := map_option clean_string (encrypted p),
        iv := map_option clean_string (iv p),
        authTag := map_option clean_string (authTag p),
        algorithm := map_option clean_string (algorithm p) \<rparr>"

definition clean_performance :: "performance_obj \<Rightarrow> performance_obj" where
  "clean_performance p = p\<lparr> engine := map_option clean_string (engine p) \<rparr>"

definition clean_specifications :: "specifications_obj \<Rightarrow> specifications_obj" where
  "clean_specifications p =
     \<lparr> transmission = map_option clean_string (transmission p),
       drivetrain = map_option clean_string (drivetrain p),
       fuel_type = map_option clean_string (fuel_type p) \<rparr>"

definition clean_dimensions :: "dimensions_obj \<Rightarrow> dimensions_obj" where
  "clean_dimensions p =
     \<lparr> length_in = map_option clean_string (length_in p),
       width = map_option clean_string (width p),
       height = map_option clean_string (height p),
       wheelbase = map_option clean_string (wheelbase p) \<rparr>"

definition removeMaliciousContent :: "car \<Rightarrow> car" where
  "removeMaliciousContent c =
     \<lparr> vehicle_type = map_option clean_string (vehicle_type c),
       manufacturer = map_option clean_string (manufacturer c),
       model = map_option clean_string (model c),
       year = year c,
       price = map_option clean_price (price c),
       performance = map_option clean_performance (performance c),
       features = map_option (map clean_string) (features c),
       specifications = map_option clean_specifications (specifications c),
       dimensions = map_option clean_dimensions (dimensions c),
       fuel_economy = fuel_economy c,
       safety_ratings = map_option (map (\<lambda>(k, v). (k, clean_string v))) (safety_ratings c),
       scraped_at = map_option clean_string (scraped_at c),
       value_score = value_score c,
       session_id = map_option clean_string (session_id c),
       security_flags = map_option (map clean_string) (security_flags c),
       data_hash = map_option clean_string (data_hash c),
       data_quality = data_quality c \<rparr>"

subsection \<open>Score and validation\<close>

text \<open>
  The weights in the order of the source: manufacturer 15, model 15, year 10, price 20,
  performance 15, specifications 10, features 10, dimensions 5. Price, performance and
  specifications count when the object has a key; an array or an object is truthy
  whatever it holds.
\<close>

definition calculateValidationScore :: "car \<Rightarrow> nat" where
  "calculateValidationScore c =
     min 100
       ((if truthy_str (manufacturer c) then 15 else 0) +
        (if truthy_str (model c) then 15 else 0) +
        (if truthy_num (year c) then 10 else 0) +
        (case price c of None \<Rightarrow> 0 | Some p \<Rightarrow> if price_keys p > 0 then 20 else 0) +
        (case performance c of None \<Rightarrow> 0 | Some p \<Rightarrow> if performance_keys p > 0 then 15 else 0) +
        (case specifications c of None \<Rightarrow> 0 | Some p \<Rightarrow> if specifications_keys p > 0 then 10 else 0) +
        (if features c \<noteq> None then 10 else 0) +
        (if dimensions c \<noteq> None then 5 else 0))"

text \<open>Decimal digits of a number, for the message that names the last accepted year.\<close>

fun digits :: "nat \<Rightarrow> string" where
  "digits n =
     (if n < 10 then [''0123456789'' ! n] else digits (n div 10) @ [''0123456789'' ! (n mod 10)])"

definition show_int :: "int \<Rightarrow> string" where
  "show_int i = (if i < 0 then CHR ''-'' # digits (nat (- i)) else digits (nat i))"

record validation_result =
  valid :: bool
  errors :: "string list"
  warnings :: "string list"
  data :: car
  score :: nat

text \<open>
  The validator's state is its cache. The key is the JSON text of the record, which for
  the records above determines the record and is determined by it up to key order, so
  the cache is a map from records.
\<close>

record validator =
  validationCache :: "car \<rightharpoonup> validation_result"

definition new_DataValidator :: validator where
  "new_DataValidator = \<lparr> validationCache = Map.empty \<rparr>"

text \<open>
  The checks of \<open>validateCarData\<close>, in the order of the source. On the typed record
  \<open>parseInt\<close> of a year is the year and \<open>isNaN\<close> of a truthy number is false; a
  number is truthy when it is not 0. \<open>currentYear\<close> is what the clock says.
\<close>

definition required_errors :: "string \<Rightarrow> string option \<Rightarrow> string list" where
  "required_errors msg v =
     (case v of
        None \<Rightarrow> [msg]
      | Some s \<Rightarrow> if s = [] \<or> trim s = [] then [msg] else [])"

definition year_errors :: "int \<Rightarrow> car \<Rightarrow> string list" where
  "year_errors currentYear carData =
     (case year carData of
        None \<Rightarrow> []
      | Some y \<Rightarrow>
          if y \<noteq> 0 \<and> (y < 1990 \<or> y > currentYear + 2)
          then [''Year must be between 1990 and '' @ show_int (currentYear + 2)]
          else [])"

definition year_warnings :: "car \<Rightarrow> string list" where
  "year_warnings carData = (if truthy_num (year carData) then [] else [''Year is missing''])"

text \<open>\<open>carData.price?.starting_msrp\<close> and the two other optional chains.\<close>

definition price_starting_msrp :: "car \<Rightarrow> int option" where
  "price_starting_msrp carData = (case price carData of None \<Rightarrow> None | Some p \<Rightarrow> starting_msrp p)"

definition performance_horsepower :: "car \<Rightarrow> int option" where
  "performance_horsepower carData =
     (case performance carData of None \<Rightarrow> None | Some p \<Rightarrow> horsepower p)"

definition fuel_economy_combined :: "car \<Rightarrow> int option" where
  "fuel_economy_combined carData =
     (case fuel_economy carData of None \<Rightarrow> None | Some p \<Rightarrow> combined p)"

definition price_errors :: "car \<Rightarrow> string list" where
  "price_errors carData =
     (case price_starting_msrp carData of
        None \<Rightarrow> []
      | Some p \<Rightarrow>
          if p \<noteq> 0 \<and> (p < 0 \<or> p > 1000000)
          then [''Price must be between 0 and 1,000,000'']
          else [])"

definition price_warnings :: "car \<Rightarrow> string list" where
  "price_warnings carData =
     (if truthy_num (price_starting_msrp carData) then [] else [''Price is missing or estimated''])"

definition horsepower_warnings :: "car \<Rightarrow> string list" where
  "horsepower_warnings carData =
     (case performance_horsepower carData of
        None \<Rightarrow> []
      | Some hp \<Rightarrow>
          if hp \<noteq> 0 \<and> (hp < 0 \<or> hp > 2000)
          then [''Horsepower value seems unrealistic'']
          else [])"

definition fuel_warnings :: "car \<Rightarrow> string list" where
  "fuel_warnings carData =
     (case fuel_economy_combined carData of
        None \<Rightarrow> []
      | Some mpg \<Rightarrow>
          if mpg \<noteq> 0 \<and> (mpg < 0 \<or> mpg > 100)
          then [''Fuel economy value seems unrealistic'']
          else [])"

text \<open>The in-place sanitising of the argument: a truthy manufacturer or model is replaced.\<close>

definition sanitize_field :: "string option \<Rightarrow> string option" where
  "sanitize_field v = (if truthy_str v then map_option sanitizeString v else v)"

definition sanitize_in_place :: "car \<Rightarrow> car" where
  "sanitize_in_place carData =
     carData\<lparr> manufacturer := sanitize_field (manufacturer carData),
              model := sanitize_field (model carData) \<rparr>"

text \<open>What \<open>validateCarData\<close> computes when the cache has no entry.\<close>

definition validate_uncached :: "int \<Rightarrow> car \<Rightarrow> validation_result" where
  "validate_uncached currentYear carData =
     (let errors = required_errors ''Manufacturer is required'' (manufacturer carData)
                   @ required_errors ''Model is required'' (model carData)
                   @ year_errors currentYear carData
                   @ price_errors carData;
          warnings = year_warnings carData @ price_warnings carData
                     @ horsepower_warnings carData @ fuel_warnings carData;
          sanitizedData = removeMaliciousContent (sanitize_in_place carData)
      in \<lparr> valid = (length errors = 0), errors = errors, warnings = warnings,
           data = sanitizedData, score = calculateValidationScore sanitizedData \<rparr>)"

text \<open>
  \<open>validateCarData\<close> returns the result, the argument as the call leaves it (sanitised in
  place unless the cache answered) and the validator with the result cached.
\<close>

definition validateCarData ::
    "int \<Rightarrow> validator \<Rightarrow> car \<Rightarrow> validation_result \<times> car \<times> validator" where
  "validateCarData currentYear v carData =
     (case validationCache v carData of
        Some cached \<Rightarrow> (cached, carData, v)
      | None \<Rightarrow>
          (let result = validate_uncached currentYear carData
           in (result, sanitize_in_place carData,
               v\<lparr> validationCache := (validationCache v)(carData \<mapsto> result) \<rparr>)))"

text \<open>Validating a record with a new validator and then validating the data it returned.\<close>

definition validate_twice :: "int \<Rightarrow> car \<Rightarrow> validation_result \<times> validation_result" where
  "validate_twice currentYear r =
     (case validateCarData currentYear new_DataValidator r of
        (v, _, dv) \<Rightarrow> (v, fst (validateCarData currentYear dv (data v))))"

text \<open>The record \<open>{manufacturer: "Toyota", model: "Camry", year: 2024, price: {starting_msrp: 28000}}\<close>.\<close>

definition toyota_camry :: car where
  "toyota_camry =
     empty_car\<lparr> manufacturer := Some ''Toyota'', model := Some ''Camry'', year := Some 2024,
                price := Some (empty_price\<lparr> starting_msrp := Some 28000 \<rparr>) \<rparr>"

section \<open>mergeCarData (routes module)\<close>

datatype js_error = TypeError

text \<open>
  \<open>{ ...target.price, ...source.price }\<close>, key by key: a key of the source wins, a key only
  the target has stays. Spreading a missing target object adds nothing.
\<close>

definition spread_key :: "'a option \<Rightarrow> 'a option \<Rightarrow> 'a option" where
  "spread_key t s = (case s of None \<Rightarrow> t | Some v \<Rightarrow> Some v)"

definition spread_price :: "price_obj option \<Rightarrow> price_obj \<Rightarrow> price_obj" where
  "spread_price target s =
     (let t = (case target of None \<Rightarrow> empty_price | Some p \<Rightarrow> p) in
      \<lparr> starting_msrp = spread_key (starting_msrp t) (starting_msrp s),
        max_price = spread_key (max_price t) (max_price s),
        price_range = spread_key (price_range t) (price_range s),
        is_estimated = spread_key (is_estimated t) (is_estimated s),
        encrypted = spread_key (encrypted t) (encrypted s),
        iv = spread_key (iv t) (iv s),
        authTag = spread_key (authTag t) (authTag s),
        algorithm = spread_key (algorithm t) (algorithm s) \<rparr>)"

definition spread_performance :: "performance_obj option \<Rightarrow> performance_obj \<Rightarrow> performance_obj" where
  "spread_performance target s =
     (let t = (case target of None \<Rightarrow> empty_performance | Some p \<Rightarrow> p) in
      \<lparr> horsepower = spread_key (horsepower t) (horsepower s),
        torque = spread_key (torque t) (torque s),
        acceleration_0_60 = spread_key (acceleration_0_60 t) (acceleration_0_60 s),
        engine = spread_key (engine t) (engine s) \<rparr>)"

definition spread_specifications ::
    "specifications_obj option \<Rightarrow> specifications_obj \<Rightarrow> specifications_obj" where
  "spread_specifications target s =
     (let t = (case target of None \<Rightarrow> empty_specifications | Some p \<Rightarrow> p) in
      \<lparr> transmission = spread_key (transmission t) (transmission s),
        drivetrain = spread_key (drivetrain t) (drivetrain s),
        fuel_type = spread_key (fuel_type t) (fuel_type s) \<rparr>)"

definition spread_dimensions :: "dimensions_obj option \<Rightarrow> dimensions_obj \<Rightarrow> dimensions_obj" where
  "spread_dimensions target s =
     (let t = (case target of None \<Rightarrow> empty_dimensions | Some p \<Rightarrow> p) in
      \<lparr> length_in = spread_key (length_in t) (length_in s),
        width = spread_key (width t) (width s),
        height = spread_key (height t) (height s),
        wheelbase = spread_key (wheelbase t) (wheelbase s) \<rparr>)"

definition spread_fuel_economy :: "fuel_economy_obj option \<Rightarrow> fuel_economy_obj \<Rightarrow> fuel_economy_obj" where
  "spread_fuel_economy target s =
     (let t = (case target of None \<Rightarrow> empty_fuel_economy | Some p \<Rightarrow> p) in
      \<lparr> city = spread_key (city t) (city s),
        highway = spread_key (highway t) (highway s),
        combined = spread_key (combined t) (combined s) \<rparr>)"

text \<open>The same for an object with free keys: the target's keys keep their place.\<close>

definition spread_assoc ::
    "(string \<times> string) list option \<Rightarrow> (string \<times> string) list \<Rightarrow> (string \<times> string) list" where
  "spread_assoc target s =
     (let t = (case target of None \<Rightarrow> [] | Some kvs \<Rightarrow> kvs) in
      map (\<lambda>(k, v). (k, case map_of s k of None \<Rightarrow> v | Some v' \<Rightarrow> v')) t
        @ filter (\<lambda>(k, v). map_of t k = None) s)"

text \<open>
  \<open>[...new Set(xs)]\<close>: a Set keeps its elements in the order of their first insertion
  and ignores an element it already has.
\<close>

definition set_in_order :: "string list \<Rightarrow> string list" where
  "set_in_order xs = foldl (\<lambda>seen x. if x \<in> set seen then seen else seen @ [x]) [] xs"

text \<open>
  \<open>if (source.f) target.f = ...\<close> for an object or array \<open>f\<close>: present means truthy.
  Spreading \<open>target.features\<close> into an array throws when the target has no such key.
\<close>

definition merge_key :: "('a option \<Rightarrow> 'a \<Rightarrow> 'a) \<Rightarrow> 'a option \<Rightarrow> 'a option \<Rightarrow> 'a option" where
  "merge_key spread t s = (case s of None \<Rightarrow> t | Some v \<Rightarrow> Some (spread t v))"

definition merge_features :: "string list option \<Rightarrow> string list option \<Rightarrow> js_error + string list option" where
  "merge_features t s =
     (case s of
        None \<Rightarrow> Inr t
      | Some fs \<Rightarrow>
          (case t of
             None \<Rightarrow> Inl TypeError
           | Some ft \<Rightarrow> Inr (Some (set_in_order (ft @ fs)))))"

text \<open>
  \<open>mergeCarData\<close> changes the target in place and returns nothing: the result here is the
  target as the call leaves it, and the error if the call threw. Price and performance
  are merged before the features, so they stay merged when the features throw.
\<close>

definition mergeCarData :: "car \<Rightarrow> car \<Rightarrow> js_error option \<times> car" where
  "mergeCarData target source =
     (let t1 = target\<lparr>
            price := merge_key spread_price (price target) (price source),
            performance := merge_key spread_performance (performance target) (performance source) \<rparr>
      in case merge_features (features t1) (features source) of
           Inl e \<Rightarrow> (Some e, t1)
         | Inr merged_features \<Rightarrow>
             (None, t1\<lparr>
                features := merged_features,
                specifications :=
                  merge_key spread_specifications (specifications t1) (specifications source),
                dimensions := merge_key spread_dimensions (dimensions t1) (dimensions source),
                fuel_economy := merge_key spread_fuel_economy (fuel_economy t1) (fuel_economy source),
                safety_ratings := merge_key spread_assoc (safety_ratings t1) (safety_ratings source) \<rparr>))"

section \<open>The main loop (main module)\<close>

text \<open>
  What the loop over the manufacturers does to \<open>allCars\<close>, \<open>processedCount\<close> and the
  validator. The crawl and the transformations (encryption, hashing) are given from
  outside: \<open>scraped m\<close> is the list \<open>scrapeManufacturer\<close> returns for manufacturer \<open>m\<close>,
  or \<open>None\<close> when it throws and the \<open>catch\<close> takes over. Logging, saving the progress
  and the delays do not touch the three variables.
\<close>

record main_env =
  scraped :: "string \<Rightarrow> car list option"
  applySecurityTransformations :: "car \<Rightarrow> car"
  currentYear :: int

record main_input =
  maxResults :: "int option"
  manufacturers :: "string list option"

record main_state =
  allCars :: "car list"
  processedCount :: nat
  dataValidator :: validator

definition manufacturers_of :: "main_input \<Rightarrow> string list" where
  "manufacturers_of input =
     (case manufacturers input of
        Some (m # ms) \<Rightarrow> m # ms
      | _ \<Rightarrow>
        [''Toyota'', ''Honda'', ''BMW'', ''Mercedes-Benz'', ''Audi'', ''Tesla'',
         ''Ford'', ''Chevrolet'', ''Hyundai'', ''Kia'', ''Nissan'', ''Volkswagen'',
         ''Mazda'', ''Subaru'', ''Lexus'', ''Acura'', ''Infiniti'', ''Genesis'',
         ''Volvo'', ''Porsche'', ''Jaguar'', ''Land Rover''])"

text \<open>
  \<open>secureCars.filter(car => dataValidator.validateCarData(car).valid)\<close>: the kept objects
  are the ones the validator sanitised in place, and the cache goes from call to call.
\<close>

fun filter_valid :: "int \<Rightarrow> validator \<Rightarrow> car list \<Rightarrow> car list \<times> validator" where
  "filter_valid cy v [] = ([], v)"
| "filter_valid cy v (c # cs) =
     (case validateCarData cy v c of
        (validation, c', v') \<Rightarrow>
          (case filter_valid cy v' cs of
             (kept, v'') \<Rightarrow> (if valid validation then c' # kept else kept, v'')))"

definition process_manufacturer :: "main_env \<Rightarrow> main_state \<Rightarrow> string \<Rightarrow> main_state" where
  "process_manufacturer env s m =
     (case scraped env m of
        None \<Rightarrow> s
      | Some manufacturerCars \<Rightarrow>
          (let secureCars = map (applySecurityTransformations env) manufacturerCars in
           case filter_valid (currentYear env) (dataValidator s) secureCars of
             (validCars, v') \<Rightarrow>
               \<lparr> allCars = allCars s @ validCars,
                 processedCount = processedCount s + length validCars,
                 dataValidator = v' \<rparr>))"

text \<open>\<open>processedCount >= input.maxResults\<close> is false when \<open>maxResults\<close> is missing.\<close>

definition limit_reached :: "main_input \<Rightarrow> main_state \<Rightarrow> bool" where
  "limit_reached input s =
     (case maxResults input of None \<Rightarrow> False | Some n \<Rightarrow> int (processedCount s) \<ge> n)"

fun main_loop :: "main_env \<Rightarrow> main_input \<Rightarrow> string list \<Rightarrow> main_state \<Rightarrow> main_state" where
  "main_loop env input [] s = s"
| "main_loop env input (m # ms) s =
     (if limit_reached input s then s
      else main_loop env input ms (process_manufacturer env s m))"

text \<open>\<open>x.toFixed(2)\<close> for a number that is not negative, and the rate \<open>main\<close> computes.\<close>

definition toFixed2 :: "rat \<Rightarrow> string" where
  "toFixed2 x =
     (let n = nat \<lfloor>x * 100 + 1 / 2\<rfloor> in
      digits (n div 100) @ ''.'' @ digits (n mod 100 div 10) @ digits (n mod 10))"

definition successRate_of :: "main_state \<Rightarrow> string" where
  "successRate_of s =
     (if processedCount s > 0
      then toFixed2 (of_nat (length (allCars s)) / of_nat (processedCount s) * 100)
      else ''0'')"

text \<open>The state after the loop and the \<open>success_rate\<close> that \<open>generateMetadata\<close> reports.\<close>

definition run_main :: "main_env \<Rightarrow> main_input \<Rightarrow> main_state" where
  "run_main env input =
     main_loop env input (manufacturers_of input)
       \<lparr> allCars = [], processedCount = 0, dataValidator = new_DataValidator \<rparr>"

definition success_rate :: "main_env \<Rightarrow> main_input \<Rightarrow> string" where
  "success_rate env input = successRate_of (run_main env input) @ ''%''"

section \<open>SecurityMonitor (monitor module)\<close>

text \<open>
  An event of the audit log. The values of \<open>details\<close> are numbers or strings, time
  stamps are milliseconds (the ISO text the source stores is read back to the same
  millisecond).
\<close>

datatype detail = DNum int | DStr string

record event =
  event_id :: string
  eventType :: string
  timestamp :: int
  event_sessionId :: "string option"
  details :: "(string \<times> detail) list"
  severity :: nat

record thresholds =
  maxRequestsPerMinute :: nat
  maxConsecutiveFailures :: nat
  maxSecurityIncidents :: nat

record SecurityMonitor =
  auditLog :: "event list"
  securityIncidents :: "event list"
  sessionId :: "string option"
  startTime :: int
  requestCount :: nat
  blockedCount :: nat
  retryCount :: nat
  thresholds :: thresholds

text \<open>
  What a call reads from outside: the simulated clock, the random bytes of the next id
  (given by the number of events logged so far) and the URL parser, which answers with
  protocol, host and path or fails.
\<close>

record monitor_env =
  date_now :: int
  randomBytes :: "nat \<Rightarrow> string"
  parse_url :: "string \<Rightarrow> string option"

definition new_SecurityMonitor :: "int \<Rightarrow> SecurityMonitor" where
  "new_SecurityMonitor start =
     \<lparr> auditLog = [], securityIncidents = [], sessionId = None, startTime = start,
       requestCount = 0, blockedCount = 0, retryCount = 0,
       thresholds = \<lparr> maxRequestsPerMinute = 30, maxConsecutiveFailures = 5,
                      maxSecurityIncidents = 10 \<rparr> \<rparr>"

definition sanitizeUrl :: "monitor_env \<Rightarrow> string \<Rightarrow> string" where
  "sanitizeUrl env url = (case parse_url env url of Some u \<Rightarrow> u | None \<Rightarrow> ''invalid_url'')"

definition sanitizeDetails :: "monitor_env \<Rightarrow> (string \<times> detail) list \<Rightarrow> (string \<times> detail) list" where
  "sanitizeDetails env ds =
     (let sanitized = filter (\<lambda>(k, v). k \<notin> {''password'', ''apiKey'', ''token''}) ds in
      case map_of sanitized ''url'' of
        Some (DStr u) \<Rightarrow>
          if u \<noteq> [] then map (\<lambda>(k, v). if k = ''url'' then (k, DStr (sanitizeUrl env u)) else (k, v)) sanitized
          else sanitized
      | Some (DNum n) \<Rightarrow>
          if n \<noteq> 0 then map (\<lambda>(k, v). if k = ''url'' then (k, DStr ''invalid_url'') else (k, v)) sanitized
          else sanitized
      | None \<Rightarrow> sanitized)"

definition getEventSeverity :: "string \<Rightarrow> nat" where
  "getEventSeverity t =
     (case map_of
        [(''session_created'', 1), (''request_made'', 1), (''retry_attempt'', 2),
         (''request_blocked'', 3), (''captcha_detected'', 3), (''ip_blocked'', 4),
         (''rate_limit_exceeded'', 3), (''security_violation'', 5)] t of
        Some n \<Rightarrow> n
      | None \<Rightarrow> 2)"

definition recentRequests :: "monitor_env \<Rightarrow> SecurityMonitor \<Rightarrow> event list" where
  "recentRequests env st =
     filter (\<lambda>event. eventType event = ''request_made'' \<and> timestamp event > date_now env - 60000)
       (auditLog st)"

text \<open>
  \<open>logEvent\<close> calls \<open>checkThresholds\<close>, which calls \<open>logEvent\<close> again when a threshold is
  passed. The first argument is the number of frames left on the call stack: each call
  takes one, and a call with none left fails (\<open>None\<close>), as the engine's RangeError does.
\<close>

fun logEvent ::
    "nat \<Rightarrow> monitor_env \<Rightarrow> string \<Rightarrow> (string \<times> detail) list \<Rightarrow> SecurityMonitor
      \<Rightarrow> (string \<times> SecurityMonitor) option"
and checkThresholds :: "nat \<Rightarrow> monitor_env \<Rightarrow> SecurityMonitor \<Rightarrow> SecurityMonitor option" where
  "logEvent 0 env t ds st = None"
| "logEvent (Suc depth) env t ds st =
     (let event = \<lparr> event_id = randomBytes env (length (auditLog st)),
                    eventType = t,
                    timestamp = date_now env,
                    event_sessionId = sessionId st,
                    details = sanitizeDetails env ds,
                    severity = getEventSeverity t \<rparr>;
          st1 = st\<lparr> auditLog := auditLog st @ [event] \<rparr>;
          st2 = (if severity event \<ge> 3
                 then st1\<lparr> securityIncidents := securityIncidents st1 @ [event] \<rparr>
                 else st1)
      in case checkThresholds depth env st2 of
           None \<Rightarrow> None
         | Some st3 \<Rightarrow> Some (event_id event, st3))"
| "checkThresholds 0 env st = None"
| "checkThresholds (Suc depth) env st =
     (let recent = recentRequests env st;
          after_rate =
            (if length recent > maxRequestsPerMinute (thresholds st)
             then map_option snd
                    (logEvent depth env ''rate_limit_exceeded''
                       [(''current'', DNum (int (length recent))),
                        (''limit'', DNum (int (maxRequestsPerMinute (thresholds st))))] st)
             else Some st)
      in case after_rate of
           None \<Rightarrow> None
         | Some st1 \<Rightarrow>
             if length (securityIncidents st1) > maxSecurityIncidents (thresholds st1)
             then map_option snd
                    (logEvent depth env ''security_threshold_exceeded''
                       [(''incidents'', DNum (int (length (securityIncidents st1)))),
                        (''limit'', DNum (int (maxSecurityIncidents (thresholds st1))))] st1)
             else Some st1)"

text \<open>\<open>n\<close> calls of \<open>logEvent(t, {})\<close> in a row; a call that fails ends the run.\<close>

fun log_events :: "nat \<Rightarrow> monitor_env \<Rightarrow> string \<Rightarrow> nat \<Rightarrow> SecurityMonitor \<Rightarrow> SecurityMonitor option" where
  "log_events depth env t 0 st = Some st"
| "log_events depth env t (Suc n) st =
     (case logEvent depth env t [] st of
        None \<Rightarrow> None
      | Some (_, st') \<Rightarrow> log_events depth env t n st')"

section \<open>Records and fragments used as examples\<close>

text \<open>The fragments \<open>{features: ["a"]}\<close> and \<open>{features: ["b", "a"]}\<close>.\<close>

definition fragment_A :: car where
  "fragment_A = empty_car\<lparr> features := Some [''a''] \<rparr>"

definition fragment_B :: car where
  "fragment_B = empty_car\<lparr> features := Some [''b'', ''a''] \<rparr>"

text \<open>The Camry with 5000 horsepower; with every checked number out of its range; with a
  manufacturer that consists of stripped characters; with a model that ends in a space.\<close>

definition camry_5000hp :: car where
  "camry_5000hp =
     toyota_camry\<lparr> performance := Some (empty_performance\<lparr> horsepower := Some 5000 \<rparr>) \<rparr>"

definition out_of_range_car :: car where
  "out_of_range_car =
     toyota_camry\<lparr> year := Some 1899,
                   price := Some (empty_price\<lparr> starting_msrp := Some 2000000 \<rparr>),
                   performance := Some (empty_performance\<lparr> horsepower := Some 5000 \<rparr>),
                   fuel_economy := Some (empty_fuel_economy\<lparr> combined := Some 150 \<rparr>) \<rparr>"

definition unsanitized_car :: car where
  "unsanitized_car = toyota_camry\<lparr> manufacturer := Some ''<>'' \<rparr>"

definition trailing_space_car :: car where
  "trailing_space_car = toyota_camry\<lparr> model := Some ''Toyota Camry '' \<rparr>"

text \<open>
  A run over Toyota and Honda: the crawl of Toyota returns the Camry and the record with
  every number out of range, the crawl of Honda throws; the transformations change
  nothing and the year is 2026.
\<close>

definition camry_env :: main_env where
  "camry_env =
     \<lparr> scraped = (\<lambda>m. if m = ''Toyota'' then Some [toyota_camry, out_of_range_car] else None),
       applySecurityTransformations = (\<lambda>c. c),
       currentYear = 2026 \<rparr>"

definition camry_input :: main_input where
  "camry_input = \<lparr> maxResults = Some 10, manufacturers = Some [''Toyota'', ''Honda''] \<rparr>"

text \<open>
  The test of the required fields, \<open>!name || name.trim() === ''\<close>, and what sanitising
  and cleaning make of a manufacturer or model.
\<close>

definition blank_name :: "string option \<Rightarrow> bool" where
  "blank_name v = (case v of None \<Rightarrow> True | Some s \<Rightarrow> s = [] \<or> trim s = [])"

definition sanitized_name :: "string option \<Rightarrow> string option" where
  "sanitized_name v = map_option clean_string (sanitize_field v)"

text \<open>The score as the points of a name (manufacturer or model) and the points of the rest.\<close>

definition name_points :: "string option \<Rightarrow> nat" where
  "name_points x = (if truthy_str x then 15 else 0)"

definition other_points :: "car \<Rightarrow> nat" where
  "other_points c =
     (if truthy_num (year c) then 10 else 0) +
     (case price c of None \<Rightarrow> 0 | Some p \<Rightarrow> if price_keys p > 0 then 20 else 0) +
     (case performance c of None \<Rightarrow> 0 | Some p \<Rightarrow> if performance_keys p > 0 then 15 else 0) +
     (case specifications c of None \<Rightarrow> 0 | Some p \<Rightarrow> if specifications_keys p > 0 then 10 else 0) +
     (if features c \<noteq> None then 10 else 0) +
     (if dimensions c \<noteq> None then 5 else 0)"

section \<open>Properties of the RateLimiter\<close>

lemma limiter_step_active_nonneg:
  "0 \<le> activeRequests st \<Longrightarrow> 0 \<le> activeRequests (limiter_step st c)"
  by (cases c)
     (simp_all add: canMakeRequest_def addRequestTimestamp_def completeRequest_def
        calculateDelay_def recordSuccess_def recordFailure_def reset_def adaptiveLimit_def Let_def)

lemma limiter_run_active_nonneg:
  "0 \<le> activeRequests st \<Longrightarrow> 0 \<le> activeRequests (limiter_run st calls)"
  unfolding limiter_run_def
  by (induction calls arbitrary: st) (simp_all add: limiter_step_active_nonneg)

text \<open>
  Claim C8. Whatever sequence of calls a new limiter has gone through, \<open>activeRequests\<close>
  is not negative; and when \<open>canMakeRequest\<close> answers true, \<open>activeRequests\<close> is below
  \<open>concurrentRequests\<close>, so that the \<open>addRequestTimestamp\<close> that follows leaves it at
  most at \<open>concurrentRequests\<close>.
\<close>

theorem activeRequests_bounds:
  "0 \<le> activeRequests (limiter_run (new_RateLimiter opts) calls) \<and>
   (fst (canMakeRequest now (limiter_run (new_RateLimiter opts) calls)) \<longrightarrow>
      activeRequests (limiter_run (new_RateLimiter opts) calls)
        < concurrentRequests (config (limiter_run (new_RateLimiter opts) calls)) \<and>
      activeRequests (addRequestTimestamp now'
          (snd (canMakeRequest now (limiter_run (new_RateLimiter opts) calls))))
        \<le> concurrentRequests (config (limiter_run (new_RateLimiter opts) calls)))"
proof -
  let ?st = "limiter_run (new_RateLimiter opts) calls"
  have "0 \<le> activeRequests (new_RateLimiter opts)"
    by (simp add: new_RateLimiter_def)
  then have nonneg: "0 \<le> activeRequests ?st"
    by (rule limiter_run_active_nonneg)
  have gate: "fst (canMakeRequest now ?st) \<Longrightarrow>
      activeRequests ?st < concurrentRequests (config ?st) \<and>
      activeRequests (addRequestTimestamp now' (snd (canMakeRequest now ?st)))
        \<le> concurrentRequests (config ?st)"
    by (auto simp add: canMakeRequest_def addRequestTimestamp_def Let_def split: if_splits)
  from nonneg gate show ?thesis by blast
qed

theorem activeRequests_bounds_witness:
  "fst (canMakeRequest 1000 (limiter_run (new_RateLimiter no_options)
         [AddRequestTimestamp 0, CompleteRequest, CompleteRequest, AddRequestTimestamp 10])) \<and>
   activeRequests (limiter_run (new_RateLimiter no_options)
         [AddRequestTimestamp 0, CompleteRequest, CompleteRequest, AddRequestTimestamp 10]) = 1 \<and>
   activeRequests (addRequestTimestamp 1000 (snd (canMakeRequest 1000 (limiter_run (new_RateLimiter no_options)
         [AddRequestTimestamp 0, CompleteRequest, CompleteRequest, AddRequestTimestamp 10])))) \<le> 5"
  using activeRequests_bounds [of no_options
      "[AddRequestTimestamp 0, CompleteRequest, CompleteRequest, AddRequestTimestamp 10]" 1000 1000]
  by (simp add: limiter_run_def new_RateLimiter_def no_options_def canMakeRequest_def
        addRequestTimestamp_def completeRequest_def Let_def)

text \<open>
  Claim C5, first as it fails: a call of \<open>canMakeRequest\<close> a hundred seconds after the
  only request drops that request's time stamp, so the limiter is not what it was.
\<close>

theorem canMakeRequest_prunes_counterexample:
  "snd (canMakeRequest 100000 (addRequestTimestamp 0 (new_RateLimiter no_options)))
     \<noteq> addRequestTimestamp 0 (new_RateLimiter no_options)"
  by (simp add: canMakeRequest_def addRequestTimestamp_def new_RateLimiter_def no_options_def Let_def)

text \<open>
  Claim C5 as it holds. \<open>canMakeRequest\<close> answers true exactly when \<open>activeRequests\<close> is
  below \<open>concurrentRequests\<close> and fewer than \<open>requestsPerMinute\<close> time stamps lie in the
  last 60 seconds. The call changes nothing but \<open>requestTimestamps\<close>, which loses the
  time stamps older than that when the first check passes; the time stamps inside the
  window are the same before and after.
\<close>

theorem canMakeRequest_spec:
  "fst (canMakeRequest now st) =
     (activeRequests st < concurrentRequests (config st) \<and>
      of_nat (length (filter (\<lambda>t. t > now - 60000) (requestTimestamps st)))
        < requestsPerMinute (config st)) \<and>
   snd (canMakeRequest now st) =
     st\<lparr> requestTimestamps :=
           (if activeRequests st < concurrentRequests (config st)
            then filter (\<lambda>t. t > now - 60000) (requestTimestamps st)
            else requestTimestamps st) \<rparr> \<and>
   filter (\<lambda>t. t > now - 60000) (requestTimestamps (snd (canMakeRequest now st)))
     = filter (\<lambda>t. t > now - 60000) (requestTimestamps st)"
  by (auto simp add: canMakeRequest_def Let_def)

lemma calculateDelay_value:
  "fst (calculateDelay st) =
     (if consecutiveFailures st = 0 then min (baseDelay (config st)) (maxDelay (config st))
      else min (baseDelay (config st) * 2 ^ (min (consecutiveFailures st) 5)) (maxDelay (config st)))"
  by (simp add: calculateDelay_def Let_def)

lemma failures_funpow:
  "consecutiveFailures ((recordFailure ^^ n) st) = consecutiveFailures st + n \<and>
   config ((recordFailure ^^ n) st) = config st"
  by (induction n) (simp_all add: recordFailure_def)

lemma delay_formula_mono:
  assumes "0 \<le> (b::rat)" "n \<le> (m::nat)"
  shows "(if n = 0 then min b c else min (b * 2 ^ (min n 5)) c)
       \<le> (if m = 0 then min b c else min (b * 2 ^ (min m 5)) c)"
proof -
  have p: "(2::rat) ^ (min n 5) \<le> 2 ^ (min m 5)"
    using assms(2) by (intro power_increasing) auto
  have q: "(1::rat) \<le> 2 ^ (min m 5)" by simp
  have "b * 2 ^ (min n 5) \<le> b * 2 ^ (min m 5)"
    using p assms(1) by (rule mult_left_mono)
  moreover have "b \<le> b * 2 ^ (min m 5)"
    using mult_left_mono [OF q assms(1)] by simp
  ultimately show ?thesis using assms(2) by (auto simp add: min_def)
qed

text \<open>
  Claim C7, first as it fails: with a base delay of 20000 and the default maximum of
  10000 a limiter without failures does not answer with its base delay.
\<close>

theorem calculateDelay_base_counterexample:
  "fst (calculateDelay (new_RateLimiter (no_options\<lparr> opt_baseDelay := Some 20000 \<rparr>)))
     \<noteq> baseDelay (config (new_RateLimiter (no_options\<lparr> opt_baseDelay := Some 20000 \<rparr>)))"
  by (simp add: calculateDelay_def new_RateLimiter_def no_options_def)

text \<open>
  Claim C7 as it holds. Without failures \<open>calculateDelay\<close> returns the smaller of
  \<open>baseDelay\<close> and \<open>maxDelay\<close>, which is \<open>baseDelay\<close> when that is at most \<open>maxDelay\<close>; with
  failures it returns the smaller of \<open>baseDelay\<close> times 2 to the power min(failures, 5)
  and \<open>maxDelay\<close>. The result never exceeds \<open>maxDelay\<close>, and for a base delay that is not
  negative it does not decrease as failures are recorded.
\<close>

theorem calculateDelay_spec:
  "fst (calculateDelay st) =
     (if consecutiveFailures st = 0 then min (baseDelay (config st)) (maxDelay (config st))
      else min (baseDelay (config st) * 2 ^ (min (consecutiveFailures st) 5)) (maxDelay (config st))) \<and>
   fst (calculateDelay st) \<le> maxDelay (config st) \<and>
   (baseDelay (config st) \<le> maxDelay (config st) \<and> consecutiveFailures st = 0 \<longrightarrow>
      fst (calculateDelay st) = baseDelay (config st)) \<and>
   (0 \<le> baseDelay (config st) \<and> n \<le> m \<longrightarrow>
      fst (calculateDelay ((recordFailure ^^ n) st)) \<le> fst (calculateDelay ((recordFailure ^^ m) st)))"
proof -
  have v: "fst (calculateDelay st) =
     (if consecutiveFailures st = 0 then min (baseDelay (config st)) (maxDelay (config st))
      else min (baseDelay (config st) * 2 ^ (min (consecutiveFailures st) 5)) (maxDelay (config st)))"
    by (rule calculateDelay_value)
  have cap: "fst (calculateDelay st) \<le> maxDelay (config st)"
    by (simp add: v)
  have base: "baseDelay (config st) \<le> maxDelay (config st) \<and> consecutiveFailures st = 0 \<longrightarrow>
      fst (calculateDelay st) = baseDelay (config st)"
    by (simp add: v)
  have mono: "0 \<le> baseDelay (config st) \<and> n \<le> m \<longrightarrow>
      fst (calculateDelay ((recordFailure ^^ n) st)) \<le> fst (calculateDelay ((recordFailure ^^ m) st))"
  proof
    assume h: "0 \<le> baseDelay (config st) \<and> n \<le> m"
    then have "consecutiveFailures st + n \<le> consecutiveFailures st + m" by simp
    from delay_formula_mono [OF conjunct1 [OF h] this]
    show "fst (calculateDelay ((recordFailure ^^ n) st)) \<le> fst (calculateDelay ((recordFailure ^^ m) st))"
      by (simp only: calculateDelay_value failures_funpow)
  qed
  from v cap base mono show ?thesis by blast
qed

theorem calculateDelay_spec_witness:
  "fst (calculateDelay ((recordFailure ^^ 1) (new_RateLimiter no_options))) = 4000 \<and>
   fst (calculateDelay ((recordFailure ^^ 2) (new_RateLimiter no_options))) = 8000 \<and>
   fst (calculateDelay (new_RateLimiter no_options)) = 2000"
  using calculateDelay_spec [of "new_RateLimiter no_options" 1 2]
  by (simp add: calculateDelay_def new_RateLimiter_def no_options_def recordFailure_def numeral_2_eq_2)

text \<open>
  Claim C4, as the code behaves. A blocked IP sets a new limiter to one request per
  minute and a base delay of 10000. From there a captcha signal raises the ceiling to
  five requests per minute, and a low success rate lowers the base delay to 5000: the
  floor and the cap of these two branches undo what the branch for the blocked IP did.
\<close>

theorem adaptiveLimit_loosens_after_block:
  "requestsPerMinute (config (adaptiveLimit
       \<lparr> captchaDetected = False, ipBlocked = True, successRate = None \<rparr>
       (new_RateLimiter no_options))) = 1 \<and>
   baseDelay (config (adaptiveLimit
       \<lparr> captchaDetected = False, ipBlocked = True, successRate = None \<rparr>
       (new_RateLimiter no_options))) = 10000 \<and>
   requestsPerMinute (config (adaptiveLimit
       \<lparr> captchaDetected = True, ipBlocked = False, successRate = None \<rparr>
       (adaptiveLimit \<lparr> captchaDetected = False, ipBlocked = True, successRate = None \<rparr>
          (new_RateLimiter no_options)))) = 5 \<and>
   baseDelay (config (adaptiveLimit
       \<lparr> captchaDetected = False, ipBlocked = False, successRate = Some (1 / 10) \<rparr>
       (adaptiveLimit \<lparr> captchaDetected = False, ipBlocked = True, successRate = None \<rparr>
          (new_RateLimiter no_options)))) = 5000"
  by (simp add: adaptiveLimit_def new_RateLimiter_def no_options_def)

text \<open>
  One call on a limiter whose base delay lies between 0 and 5000 and whose ceiling is at
  least 5 requests per minute neither raises \<open>requestsPerMinute\<close> nor lowers \<open>baseDelay\<close>,
  whatever the signal.
\<close>

theorem adaptiveLimit_ratchet:
  assumes "0 \<le> baseDelay (config st)" "baseDelay (config st) \<le> 5000"
      and "5 \<le> requestsPerMinute (config st)"
  shows "requestsPerMinute (config (adaptiveLimit c st)) \<le> requestsPerMinute (config st) \<and>
         baseDelay (config st) \<le> baseDelay (config (adaptiveLimit c st))"
  using assms by (auto simp add: adaptiveLimit_def Let_def min_def max_def split: option.splits)

theorem adaptiveLimit_ratchet_witness:
  "0 \<le> baseDelay (config (new_RateLimiter no_options)) \<and>
   baseDelay (config (new_RateLimiter no_options)) \<le> 5000 \<and>
   5 \<le> requestsPerMinute (config (new_RateLimiter no_options)) \<and>
   requestsPerMinute (config (adaptiveLimit
       \<lparr> captchaDetected = True, ipBlocked = False, successRate = Some (1 / 4) \<rparr>
       (new_RateLimiter no_options))) = 15 \<and>
   baseDelay (config (adaptiveLimit
       \<lparr> captchaDetected = True, ipBlocked = False, successRate = Some (1 / 4) \<rparr>
       (new_RateLimiter no_options))) = 5000"
  using adaptiveLimit_ratchet [of "new_RateLimiter no_options"
      "\<lparr> captchaDetected = True, ipBlocked = False, successRate = Some (1 / 4) \<rparr>"]
  by (simp add: adaptiveLimit_def new_RateLimiter_def no_options_def)

section \<open>Properties of the DataValidator\<close>

lemma clean_string_Nil: "clean_string [] = []"
  by (simp add: clean_string_def maliciousPatterns_def)

lemma sanitizeString_blank: "trim s = [] \<Longrightarrow> sanitizeString s = []"
  by (simp add: sanitizeString_def)

lemma trim_Nil: "trim [] = []"
  by (simp add: trim_def)

lemma validate_fresh:
  "validateCarData cy new_DataValidator r =
     (validate_uncached cy r, sanitize_in_place r,
      \<lparr> validationCache = [r \<mapsto> validate_uncached cy r] \<rparr>)"
  by (simp add: validateCarData_def new_DataValidator_def Let_def)

lemma validate_twice_cases:
  "validate_twice cy r =
     (validate_uncached cy r,
      if data (validate_uncached cy r) = r then validate_uncached cy r
      else validate_uncached cy (data (validate_uncached cy r)))"
  unfolding validate_twice_def validate_fresh
  by (simp add: validateCarData_def Let_def)

lemma data_uncached: "data (validate_uncached cy r) = removeMaliciousContent (sanitize_in_place r)"
  by (simp add: validate_uncached_def Let_def)

lemma numeric_fields_kept:
  "year (removeMaliciousContent (sanitize_in_place r)) = year r"
  "price_starting_msrp (removeMaliciousContent (sanitize_in_place r)) = price_starting_msrp r"
  "performance_horsepower (removeMaliciousContent (sanitize_in_place r)) = performance_horsepower r"
  "fuel_economy_combined (removeMaliciousContent (sanitize_in_place r)) = fuel_economy_combined r"
  by (simp_all add: removeMaliciousContent_def sanitize_in_place_def price_starting_msrp_def
        performance_horsepower_def fuel_economy_combined_def clean_price_def clean_performance_def
        split: option.splits)

lemma warnings_uncached:
  "warnings (validate_uncached cy r) =
     year_warnings r @ price_warnings r @ horsepower_warnings r @ fuel_warnings r"
  by (simp add: validate_uncached_def Let_def)

lemma errors_uncached:
  "errors (validate_uncached cy r) =
     required_errors ''Manufacturer is required'' (manufacturer r)
       @ required_errors ''Model is required'' (model r)
       @ year_errors cy r @ price_errors r"
  by (simp add: validate_uncached_def Let_def)

lemma score_uncached:
  "score (validate_uncached cy r) =
     calculateValidationScore (removeMaliciousContent (sanitize_in_place r))"
  by (simp add: validate_uncached_def Let_def)

lemma warnings_kept:
  "warnings (validate_uncached cy (removeMaliciousContent (sanitize_in_place r)))
     = warnings (validate_uncached cy r)"
  by (simp add: warnings_uncached year_warnings_def price_warnings_def horsepower_warnings_def
        fuel_warnings_def numeric_fields_kept)

lemma range_errors_kept:
  "year_errors cy (removeMaliciousContent (sanitize_in_place r)) = year_errors cy r"
  "price_errors (removeMaliciousContent (sanitize_in_place r)) = price_errors r"
  by (simp_all add: year_errors_def price_errors_def numeric_fields_kept)

lemma names_sanitized:
  "manufacturer (removeMaliciousContent (sanitize_in_place r))
     = map_option clean_string (sanitize_field (manufacturer r))"
  "model (removeMaliciousContent (sanitize_in_place r))
     = map_option clean_string (sanitize_field (model r))"
  by (simp_all add: removeMaliciousContent_def sanitize_in_place_def)

lemma keys_kept:
  "price_keys (clean_price p) = price_keys p"
  "performance_keys (clean_performance q) = performance_keys q"
  "specifications_keys (clean_specifications s) = specifications_keys s"
  by (simp_all add: price_keys_def clean_price_def performance_keys_def clean_performance_def
        specifications_keys_def clean_specifications_def)

lemma score_split:
  "calculateValidationScore c =
     min 100 (name_points (manufacturer c) + name_points (model c) + other_points c)"
  by (simp add: calculateValidationScore_def name_points_def other_points_def)

lemma other_points_kept:
  "other_points (removeMaliciousContent (sanitize_in_place r)) = other_points r"
  by (simp add: other_points_def removeMaliciousContent_def sanitize_in_place_def keys_kept
        split: option.splits)

lemma valid_uncached: "valid (validate_uncached cy r) = (errors (validate_uncached cy r) = [])"
  by (simp add: validate_uncached_def Let_def)

lemma toyota_errors: "errors (validate_uncached cy toyota_camry) = year_errors cy toyota_camry"
  by (simp add: errors_uncached toyota_camry_def empty_car_def empty_price_def required_errors_def
     price_errors_def price_starting_msrp_def trim_def is_space_def)

lemma names_clean:
  "clean_string (sanitizeString ''Toyota'') = ''Toyota''"
  "clean_string (sanitizeString ''Camry'') = ''Camry''"
  by code_simp+

lemma toyota_score: "score (validate_uncached cy toyota_camry) = 60"
  by (simp add: score_uncached toyota_camry_def empty_car_def empty_price_def
        calculateValidationScore_def removeMaliciousContent_def sanitize_in_place_def
        sanitize_field_def truthy_str_def truthy_num_def price_keys_def count_keys_def clean_price_def
        names_clean)

text \<open>
  Claim C2, first as it fails: the score of the Toyota Camry record is below 65.
\<close>

theorem toyota_camry_score_counterexample:
  "\<not> 65 \<le> score (fst (validateCarData 2026 new_DataValidator toyota_camry))"
  by (simp add: validate_fresh toyota_score)

text \<open>
  Claim C2 as it holds. The Toyota Camry record of 2024 is valid whenever the current
  year is 2022 or later, and its score is the sum of the weights of manufacturer, model,
  year and price: 15 + 15 + 10 + 20, that is 60.
\<close>

theorem toyota_camry_valid_score_60:
  "valid (fst (validateCarData cy new_DataValidator toyota_camry)) = (2022 \<le> cy) \<and>
   score (fst (validateCarData cy new_DataValidator toyota_camry)) = 15 + 15 + 10 + 20"
proof -
  have "year_errors cy toyota_camry = [] \<longleftrightarrow> 2022 \<le> cy"
    by (auto simp add: year_errors_def toyota_camry_def empty_car_def)
  then show ?thesis
    by (simp add: validate_fresh valid_uncached toyota_errors toyota_score)
qed

text \<open>
  Claim C3, first as it fails: the Camry with 5000 horsepower is valid, with no error
  and with the warning about the horsepower.
\<close>

theorem horsepower_soft_counterexample:
  "valid (fst (validateCarData 2026 new_DataValidator camry_5000hp)) \<and>
   errors (fst (validateCarData 2026 new_DataValidator camry_5000hp)) = [] \<and>
   warnings (fst (validateCarData 2026 new_DataValidator camry_5000hp))
     = [''Horsepower value seems unrealistic'']"
  by (simp add: validate_fresh valid_uncached errors_uncached warnings_uncached camry_5000hp_def
        toyota_camry_def empty_car_def empty_price_def empty_performance_def required_errors_def
        year_errors_def price_errors_def year_warnings_def price_warnings_def
        horsepower_warnings_def fuel_warnings_def price_starting_msrp_def
        performance_horsepower_def fuel_economy_combined_def truthy_num_def trim_def is_space_def)

text \<open>
  Claim C3 as it holds. A year other than 0 outside 1990 .. current year + 2 and a
  starting price outside 0 .. 1,000,000 each put their message into the errors and make
  the record invalid. A horsepower outside 0 .. 2000 and a combined fuel economy outside
  0 .. 100 each put their message into the warnings, and the errors do not depend on the
  performance or the fuel economy of the record at all.
\<close>

theorem range_checks:
  "(year r = Some y \<and> y \<noteq> 0 \<and> (y < 1990 \<or> cy + 2 < y) \<longrightarrow>
      \<not> valid (fst (validateCarData cy new_DataValidator r)) \<and>
      (''Year must be between 1990 and '' @ show_int (cy + 2))
        \<in> set (errors (fst (validateCarData cy new_DataValidator r)))) \<and>
   (price_starting_msrp r = Some p \<and> (p < 0 \<or> 1000000 < p) \<longrightarrow>
      \<not> valid (fst (validateCarData cy new_DataValidator r)) \<and>
      ''Price must be between 0 and 1,000,000''
        \<in> set (errors (fst (validateCarData cy new_DataValidator r)))) \<and>
   (performance_horsepower r = Some hp \<and> (hp < 0 \<or> 2000 < hp) \<longrightarrow>
      ''Horsepower value seems unrealistic''
        \<in> set (warnings (fst (validateCarData cy new_DataValidator r)))) \<and>
   (fuel_economy_combined r = Some mpg \<and> (mpg < 0 \<or> 100 < mpg) \<longrightarrow>
      ''Fuel economy value seems unrealistic''
        \<in> set (warnings (fst (validateCarData cy new_DataValidator r)))) \<and>
   errors (fst (validateCarData cy new_DataValidator (r\<lparr> performance := pf, fuel_economy := fe \<rparr>)))
     = errors (fst (validateCarData cy new_DataValidator r))"
proof -
  have y: "year r = Some y \<and> y \<noteq> 0 \<and> (y < 1990 \<or> cy + 2 < y) \<longrightarrow>
      year_errors cy r = [''Year must be between 1990 and '' @ show_int (cy + 2)]"
    by (auto simp add: year_errors_def)
  have p: "price_starting_msrp r = Some p \<and> (p < 0 \<or> 1000000 < p) \<longrightarrow>
      price_errors r = [''Price must be between 0 and 1,000,000'']"
    by (auto simp add: price_errors_def)
  have h: "performance_horsepower r = Some hp \<and> (hp < 0 \<or> 2000 < hp) \<longrightarrow>
      horsepower_warnings r = [''Horsepower value seems unrealistic'']"
    by (auto simp add: horsepower_warnings_def)
  have f: "fuel_economy_combined r = Some mpg \<and> (mpg < 0 \<or> 100 < mpg) \<longrightarrow>
      fuel_warnings r = [''Fuel economy value seems unrealistic'']"
    by (auto simp add: fuel_warnings_def)
  have e: "errors (validate_uncached cy (r\<lparr> performance := pf, fuel_economy := fe \<rparr>))
             = errors (validate_uncached cy r)"
    by (simp add: errors_uncached year_errors_def price_errors_def price_starting_msrp_def)
  from y p h f e show ?thesis
    by (simp only: validate_fresh fst_conv valid_uncached errors_uncached warnings_uncached)
       (simp del: One_nat_def)
qed

theorem range_checks_witness:
  "year out_of_range_car = Some 1899 \<and>
   price_starting_msrp out_of_range_car = Some 2000000 \<and>
   performance_horsepower out_of_range_car = Some 5000 \<and>
   fuel_economy_combined out_of_range_car = Some 150 \<and>
   \<not> valid (fst (validateCarData 2026 new_DataValidator out_of_range_car)) \<and>
   ''Year must be between 1990 and 2028''
     \<in> set (errors (fst (validateCarData 2026 new_DataValidator out_of_range_car))) \<and>
   ''Price must be between 0 and 1,000,000''
     \<in> set (errors (fst (validateCarData 2026 new_DataValidator out_of_range_car))) \<and>
   ''Horsepower value seems unrealistic''
     \<in> set (warnings (fst (validateCarData 2026 new_DataValidator out_of_range_car))) \<and>
   ''Fuel economy value seems unrealistic''
     \<in> set (warnings (fst (validateCarData 2026 new_DataValidator out_of_range_car)))"
proof -
  have s: "show_int (2026 + 2) = ''2028''" by (simp add: show_int_def)
  have v: "year out_of_range_car = Some 1899"
          "price_starting_msrp out_of_range_car = Some 2000000"
          "performance_horsepower out_of_range_car = Some 5000"
          "fuel_economy_combined out_of_range_car = Some 150"
    by (simp_all add: out_of_range_car_def toyota_camry_def empty_car_def empty_price_def
          empty_performance_def empty_fuel_economy_def price_starting_msrp_def
          performance_horsepower_def fuel_economy_combined_def)
  show ?thesis
    using range_checks [of out_of_range_car 1899 2026 2000000 5000 150 None None]
    by (simp only: v s) simp
qed

lemma required_errors_blank: "required_errors msg v = (if blank_name v then [msg] else [])"
  by (simp add: required_errors_def blank_name_def split: option.splits)

lemma blank_stays: "blank_name v \<Longrightarrow> \<not> truthy_str (sanitized_name v)"
  by (auto simp add: blank_name_def sanitized_name_def sanitize_field_def truthy_str_def
        clean_string_Nil sanitizeString_blank split: option.splits)

lemma blank_stays_blank: "blank_name v \<Longrightarrow> blank_name (sanitized_name v)"
  by (auto simp add: blank_name_def sanitized_name_def sanitize_field_def truthy_str_def
        clean_string_Nil sanitizeString_blank trim_Nil split: option.splits)

lemma not_blank_truthy: "\<not> blank_name v \<Longrightarrow> truthy_str v"
  by (auto simp add: blank_name_def truthy_str_def split: option.splits)

lemma names_sanitized_name:
  "manufacturer (removeMaliciousContent (sanitize_in_place r)) = sanitized_name (manufacturer r)"
  "model (removeMaliciousContent (sanitize_in_place r)) = sanitized_name (model r)"
  by (simp_all add: names_sanitized sanitized_name_def)

lemma name_points_stable:
  assumes "blank_name (sanitized_name x) \<longrightarrow> blank_name x"
      and "blank_name (sanitized_name (sanitized_name x)) \<longrightarrow> blank_name (sanitized_name x)"
  shows "name_points (sanitized_name (sanitized_name x)) = name_points (sanitized_name x)"
proof (cases "blank_name (sanitized_name x)")
  case True
  then have "\<not> truthy_str (sanitized_name (sanitized_name x))" by (rule blank_stays)
  moreover have "\<not> truthy_str (sanitized_name x)"
    using True assms(1) blank_stays by blast
  ultimately show ?thesis by (simp add: name_points_def)
next
  case False
  then have "truthy_str (sanitized_name x)" by (rule not_blank_truthy)
  moreover have "truthy_str (sanitized_name (sanitized_name x))"
    using False assms(2) not_blank_truthy by blast
  ultimately show ?thesis by (simp add: name_points_def)
qed

text \<open>
  Claim C6, as the code behaves. The record whose manufacturer is \<open><>\<close> passes the test
  of the required fields, which looks at the name before it is sanitised: the record is
  valid, without errors, and the data returned for it has the empty manufacturer.
  Validating that data gives the error that the manufacturer is required.
\<close>

theorem blank_manufacturer_accepted:
  "valid (fst (validate_twice 2026 unsanitized_car)) \<and>
   errors (fst (validate_twice 2026 unsanitized_car)) = [] \<and>
   manufacturer (data (fst (validate_twice 2026 unsanitized_car))) = Some [] \<and>
   errors (snd (validate_twice 2026 unsanitized_car)) = [''Manufacturer is required''] \<and>
   \<not> valid (snd (validate_twice 2026 unsanitized_car))"
proof -
  have c: "clean_string (sanitizeString ''<>'') = []" "trim ''<>'' = ''<>''" by code_simp+
  have f: "manufacturer unsanitized_car = Some ''<>''" "model unsanitized_car = Some ''Camry''"
          "year_errors 2026 unsanitized_car = []" "price_errors unsanitized_car = []"
    by (simp_all add: unsanitized_car_def toyota_camry_def empty_car_def empty_price_def
          year_errors_def price_errors_def price_starting_msrp_def)
  have t: "trim ''Camry'' = ''Camry''" by code_simp
  have m: "manufacturer (removeMaliciousContent (sanitize_in_place unsanitized_car)) = Some []"
          "model (removeMaliciousContent (sanitize_in_place unsanitized_car)) = Some ''Camry''"
    by (simp_all add: names_sanitized f sanitize_field_def truthy_str_def c names_clean)
  have d: "data (validate_uncached 2026 unsanitized_car) \<noteq> unsanitized_car"
  proof
    assume "data (validate_uncached 2026 unsanitized_car) = unsanitized_car"
    then have "manufacturer (removeMaliciousContent (sanitize_in_place unsanitized_car))
                 = manufacturer unsanitized_car"
      by (simp add: data_uncached)
    then show False by (simp only: m f) simp
  qed
  have e1: "errors (validate_uncached 2026 unsanitized_car) = []"
    by (simp add: errors_uncached f required_errors_def c t)
  have e2: "errors (validate_uncached 2026 (removeMaliciousContent (sanitize_in_place unsanitized_car)))
              = [''Manufacturer is required'']"
    by (simp add: errors_uncached range_errors_kept m f required_errors_def t)
  show ?thesis
    using d by (simp add: validate_twice_cases data_uncached valid_uncached e1 e2 m)
qed

text \<open>
  Validating the data returned by a validation always gives the same warnings. It gives
  the same errors and the same score whenever sanitising does not turn a manufacturer or
  model that passes the test of the required fields into one that fails it, on the
  record and on the data returned for it. A model that ends in a space is such a case:
  sanitising changes it, and errors and score stay as they are.
\<close>

theorem revalidation_stable:
  "warnings (snd (validate_twice cy r)) = warnings (fst (validate_twice cy r)) \<and>
   ((blank_name (sanitized_name (manufacturer r)) \<longrightarrow> blank_name (manufacturer r)) \<and>
    (blank_name (sanitized_name (model r)) \<longrightarrow> blank_name (model r)) \<and>
    (blank_name (sanitized_name (sanitized_name (manufacturer r)))
       \<longrightarrow> blank_name (sanitized_name (manufacturer r))) \<and>
    (blank_name (sanitized_name (sanitized_name (model r)))
       \<longrightarrow> blank_name (sanitized_name (model r))) \<longrightarrow>
      errors (snd (validate_twice cy r)) = errors (fst (validate_twice cy r)) \<and>
      score (snd (validate_twice cy r)) = score (fst (validate_twice cy r)))"
proof (cases "data (validate_uncached cy r) = r")
  case True
  then show ?thesis by (simp add: validate_twice_cases)
next
  case False
  let ?d = "removeMaliciousContent (sanitize_in_place r)"
  have two: "validate_twice cy r = (validate_uncached cy r, validate_uncached cy ?d)"
    using False by (simp add: validate_twice_cases data_uncached)
  have w: "warnings (validate_uncached cy ?d) = warnings (validate_uncached cy r)"
    by (rule warnings_kept)
  have same: "errors (validate_uncached cy ?d) = errors (validate_uncached cy r) \<and>
              score (validate_uncached cy ?d) = score (validate_uncached cy r)"
    if m1: "blank_name (sanitized_name (manufacturer r)) \<longrightarrow> blank_name (manufacturer r)"
    and o1: "blank_name (sanitized_name (model r)) \<longrightarrow> blank_name (model r)"
    and m2: "blank_name (sanitized_name (sanitized_name (manufacturer r)))
               \<longrightarrow> blank_name (sanitized_name (manufacturer r))"
    and o2: "blank_name (sanitized_name (sanitized_name (model r)))
               \<longrightarrow> blank_name (sanitized_name (model r))"
  proof -
    have bm: "blank_name (sanitized_name (manufacturer r)) = blank_name (manufacturer r)"
      using m1 blank_stays_blank by blast
    have bo: "blank_name (sanitized_name (model r)) = blank_name (model r)"
      using o1 blank_stays_blank by blast
    have e: "errors (validate_uncached cy ?d) = errors (validate_uncached cy r)"
      by (simp add: errors_uncached range_errors_kept names_sanitized_name
            required_errors_blank bm bo)
    have "calculateValidationScore (removeMaliciousContent (sanitize_in_place ?d))
            = calculateValidationScore ?d"
      using name_points_stable [OF m1 m2] name_points_stable [OF o1 o2]
      by (simp add: score_split other_points_kept names_sanitized_name)
    then have "score (validate_uncached cy ?d) = score (validate_uncached cy r)"
      by (simp add: score_uncached)
    with e show ?thesis by simp
  qed
  show ?thesis
    using w same by (simp add: two)
qed

lemma trailing_names:
  "clean_string (sanitizeString ''Toyota Camry '') = ''Toyota Camry''"
  "clean_string (sanitizeString ''Toyota Camry'') = ''Toyota Camry''"
  "trim ''Toyota'' = ''Toyota''"
  "trim ''Toyota Camry '' = ''Toyota Camry''"
  "trim ''Toyota Camry'' = ''Toyota Camry''"
  by code_simp+

theorem revalidation_stable_witness:
  "model (data (fst (validate_twice 2026 trailing_space_car))) \<noteq> model trailing_space_car \<and>
   errors (snd (validate_twice 2026 trailing_space_car))
     = errors (fst (validate_twice 2026 trailing_space_car)) \<and>
   score (snd (validate_twice 2026 trailing_space_car))
     = score (fst (validate_twice 2026 trailing_space_car))"
proof -
  have m: "manufacturer trailing_space_car = Some ''Toyota''"
          "model trailing_space_car = Some ''Toyota Camry ''"
    by (simp_all add: trailing_space_car_def toyota_camry_def empty_car_def)
  have s: "sanitized_name (Some ''Toyota'') = Some ''Toyota''"
          "sanitized_name (Some ''Toyota Camry '') = Some ''Toyota Camry''"
          "sanitized_name (Some ''Toyota Camry'') = Some ''Toyota Camry''"
    by (simp_all add: sanitized_name_def sanitize_field_def truthy_str_def names_clean trailing_names)
  have b: "\<not> blank_name (Some ''Toyota'')" "\<not> blank_name (Some ''Toyota Camry'')"
    by (simp_all add: blank_name_def trailing_names)
  have "model (data (fst (validate_twice 2026 trailing_space_car))) = Some ''Toyota Camry''"
    by (simp add: validate_twice_cases data_uncached names_sanitized_name m s)
  then have d: "model (data (fst (validate_twice 2026 trailing_space_car))) \<noteq> model trailing_space_car"
    by (simp add: m)
  show ?thesis
    using revalidation_stable [of 2026 trailing_space_car] d
    by (simp only: m s b) simp
qed


section \<open>Properties of mergeCarData\<close>

lemma fold_set: "set (foldl (\<lambda>seen x. if x \<in> set seen then seen else seen @ [x]) acc xs) = set acc \<union> set xs"
  by (induction xs arbitrary: acc) auto

lemma fold_distinct: "distinct acc \<Longrightarrow> distinct (foldl (\<lambda>seen x. if x \<in> set seen then seen else seen @ [x]) acc xs)"
  by (induction xs arbitrary: acc) auto

lemma fold_shift:
  "foldl (\<lambda>seen x. if x \<in> set seen then seen else seen @ [x]) acc xs
     = acc @ filter (\<lambda>x. x \<notin> set acc) (foldl (\<lambda>seen x. if x \<in> set seen then seen else seen @ [x]) [] xs)"
proof (induction xs rule: rev_induct)
  case Nil
  then show ?case by simp
next
  case (snoc x xs)
  then show ?case by (auto simp add: fold_set)
qed

lemma set_in_order_set: "set (set_in_order xs) = set xs"
  by (simp add: set_in_order_def fold_set)

lemma set_in_order_distinct: "distinct (set_in_order xs)"
  by (simp add: set_in_order_def fold_distinct)

lemma set_in_order_append:
  "set_in_order (xs @ ys) = set_in_order xs @ filter (\<lambda>y. y \<notin> set xs) (set_in_order ys)"
proof -
  have "set_in_order (xs @ ys)
      = foldl (\<lambda>seen x. if x \<in> set seen then seen else seen @ [x]) (set_in_order xs) ys"
    by (simp add: set_in_order_def)
  also have "\<dots> = set_in_order xs @ filter (\<lambda>y. y \<notin> set (set_in_order xs)) (set_in_order ys)"
    by (subst fold_shift) (simp add: set_in_order_def)
  finally show ?thesis by (simp add: set_in_order_set)
qed

text \<open>
  Claim C9. Merging the fragment with the feature \<open>a\<close> and then the fragment with the
  features \<open>b\<close>, \<open>a\<close> into a record with no features gives the features \<open>a\<close>, \<open>b\<close>. In
  general a merge that brings features throws nothing and leaves the target's features,
  each once and in the order of its first occurrence, followed by the features only the
  source has, each once and in that order: no feature twice, none lost, none invented.
\<close>

theorem merge_features_union:
  "mergeCarData (snd (mergeCarData (empty_car\<lparr> features := Some [] \<rparr>) fragment_A)) fragment_B
     = (None, empty_car\<lparr> features := Some [''a'', ''b''] \<rparr>) \<and>
   fst (mergeCarData (target\<lparr> features := Some ft \<rparr>) (source\<lparr> features := Some fs \<rparr>)) = None \<and>
   features (snd (mergeCarData (target\<lparr> features := Some ft \<rparr>) (source\<lparr> features := Some fs \<rparr>)))
     = Some (set_in_order ft @ filter (\<lambda>f. f \<notin> set ft) (set_in_order fs)) \<and>
   distinct (set_in_order ft @ filter (\<lambda>f. f \<notin> set ft) (set_in_order fs)) \<and>
   set (set_in_order ft @ filter (\<lambda>f. f \<notin> set ft) (set_in_order fs)) = set ft \<union> set fs"
proof -
  have ex: "mergeCarData (snd (mergeCarData (empty_car\<lparr> features := Some [] \<rparr>) fragment_A)) fragment_B
     = (None, empty_car\<lparr> features := Some [''a'', ''b''] \<rparr>)"
    by (simp add: mergeCarData_def merge_features_def merge_key_def set_in_order_def
          fragment_A_def fragment_B_def empty_car_def)
  have m: "fst (mergeCarData (target\<lparr> features := Some ft \<rparr>) (source\<lparr> features := Some fs \<rparr>)) = None"
    by (simp add: mergeCarData_def merge_features_def Let_def)
  have eq: "set_in_order ft @ filter (\<lambda>f. f \<notin> set ft) (set_in_order fs) = set_in_order (ft @ fs)"
    by (simp add: set_in_order_append)
  have f: "features (snd (mergeCarData (target\<lparr> features := Some ft \<rparr>) (source\<lparr> features := Some fs \<rparr>)))
     = Some (set_in_order (ft @ fs))"
    by (simp add: mergeCarData_def merge_features_def Let_def)
  have d: "distinct (set_in_order (ft @ fs))" by (rule set_in_order_distinct)
  have s: "set (set_in_order (ft @ fs)) = set ft \<union> set fs" by (simp add: set_in_order_set)
  show ?thesis unfolding eq using ex m f d s by blast
qed

section \<open>Properties of the main loop\<close>

lemma process_keeps:
  "length (allCars s) = processedCount s \<Longrightarrow>
   length (allCars (process_manufacturer env s m)) = processedCount (process_manufacturer env s m)"
  by (simp add: process_manufacturer_def Let_def split: option.splits prod.splits)

lemma main_loop_keeps:
  "length (allCars s) = processedCount s \<Longrightarrow>
   length (allCars (main_loop env input ms s)) = processedCount (main_loop env input ms s)"
  by (induction ms arbitrary: s) (simp_all add: process_keeps)

lemma toFixed2_100: "toFixed2 100 = ''100.00''"
proof -
  have "\<lfloor>(100::rat) * 100 + 1 / 2\<rfloor> = 10000" by linarith
  then have n: "nat \<lfloor>(100::rat) * 100 + 1 / 2\<rfloor> = 10000" by simp
  have d100: "digits 100 = ''100''"
    by (subst digits.simps, subst digits.simps, subst digits.simps) simp
  have d0: "digits 0 = ''0''" by simp
  show ?thesis
    unfolding toFixed2_def Let_def n by (simp add: d100 d0 del: digits.simps)
qed
lemma successRate_all:
  "length (allCars s) = processedCount s \<Longrightarrow>
   successRate_of s = (if allCars s = [] then ''0'' else ''100.00'')"
  by (auto simp add: successRate_of_def toFixed2_100)
lemma validateCarData_coherent:
  assumes "\<And>k r. validationCache v k = Some r \<Longrightarrow> r = validate_uncached cy k"
  shows "fst (validateCarData cy v c) = validate_uncached cy c"
    and "fst (snd (validateCarData cy v c)) = c \<or> fst (snd (validateCarData cy v c)) = sanitize_in_place c"
    and "validationCache (snd (snd (validateCarData cy v c))) k = Some r \<Longrightarrow> r = validate_uncached cy k"
  using assms by (auto simp add: validateCarData_def Let_def split: option.splits if_splits)

lemma filter_valid_coherent:
  assumes "\<And>k r. validationCache v k = Some r \<Longrightarrow> r = validate_uncached cy k"
  shows "list_all2 (\<lambda>kept c. kept = c \<or> kept = sanitize_in_place c)
           (fst (filter_valid cy v cs)) (filter (\<lambda>c. valid (validate_uncached cy c)) cs) \<and>
         (\<forall>k r. validationCache (snd (filter_valid cy v cs)) k = Some r \<longrightarrow> r = validate_uncached cy k)"
  using assms
proof (induction cs arbitrary: v)
  case Nil
  then show ?case by simp
next
  case (Cons c cs)
  obtain res c' v' where vc: "validateCarData cy v c = (res, c', v')"
    by (cases "validateCarData cy v c") auto
  have res: "res = validate_uncached cy c"
    using validateCarData_coherent(1) [of v cy c] Cons.prems vc by simp
  have c': "c' = c \<or> c' = sanitize_in_place c"
    using validateCarData_coherent(2) [of v cy c] Cons.prems vc by simp
  have v': "\<And>k r. validationCache v' k = Some r \<Longrightarrow> r = validate_uncached cy k"
    using validateCarData_coherent(3) [of v cy c] Cons.prems vc by simp
  obtain kept v'' where fv: "filter_valid cy v' cs = (kept, v'')"
    by (cases "filter_valid cy v' cs") auto
  from Cons.IH [of v'] v' fv
  have ih: "list_all2 (\<lambda>kept c. kept = c \<or> kept = sanitize_in_place c)
              kept (filter (\<lambda>c. valid (validate_uncached cy c)) cs)"
       "\<forall>k r. validationCache v'' k = Some r \<longrightarrow> r = validate_uncached cy k"
    by auto
  show ?case
    using ih c' by (simp add: vc fv res)
qed

lemma process_coherent:
  assumes "\<And>k r. validationCache (dataValidator s) k = Some r
             \<Longrightarrow> r = validate_uncached (currentYear env) k"
  shows "validationCache (dataValidator (process_manufacturer env s m)) k = Some r
           \<Longrightarrow> r = validate_uncached (currentYear env) k"
proof (cases "scraped env m")
  case None
  then show "validationCache (dataValidator (process_manufacturer env s m)) k = Some r
           \<Longrightarrow> r = validate_uncached (currentYear env) k"
    using assms by (simp add: process_manufacturer_def)
next
  case (Some cars)
  have "\<forall>k r. validationCache (snd (filter_valid (currentYear env) (dataValidator s)
            (map (applySecurityTransformations env) cars))) k = Some r
          \<longrightarrow> r = validate_uncached (currentYear env) k"
    using filter_valid_coherent [of "dataValidator s" "currentYear env"] assms by blast
  then show "validationCache (dataValidator (process_manufacturer env s m)) k = Some r
           \<Longrightarrow> r = validate_uncached (currentYear env) k"
    by (simp add: process_manufacturer_def Some Let_def split: prod.splits)
qed

lemma main_loop_coherent:
  "(\<And>k r. validationCache (dataValidator s) k = Some r
             \<Longrightarrow> r = validate_uncached (currentYear env) k) \<Longrightarrow>
   validationCache (dataValidator (main_loop env input ms s)) k = Some r
           \<Longrightarrow> r = validate_uncached (currentYear env) k"
proof (induction ms arbitrary: s)
  case Nil
  then show ?case by simp
next
  case (Cons m ms)
  show ?case
  proof (cases "limit_reached input s")
    case True
    then show ?thesis using Cons.prems by simp
  next
    case False
    have "r = validate_uncached (currentYear env) k"
      if "validationCache (dataValidator (main_loop env input ms (process_manufacturer env s m))) k = Some r"
      using that process_coherent [of s env] Cons.prems(1) by (intro Cons.IH) blast+
    then show ?thesis using Cons.prems(2) False by simp
  qed
qed

lemma process_accepts:
  assumes "\<And>k r. validationCache (dataValidator s) k = Some r
             \<Longrightarrow> r = validate_uncached (currentYear env) k"
      and "scraped env m = Some cars"
  shows "processedCount (process_manufacturer env s m)
           = processedCount s
             + length (filter (\<lambda>c. valid (validate_uncached (currentYear env) c))
                        (map (applySecurityTransformations env) cars))"
    and "take (length (allCars s)) (allCars (process_manufacturer env s m)) = allCars s"
    and "list_all2 (\<lambda>kept c. kept = c \<or> kept = sanitize_in_place c)
           (drop (length (allCars s)) (allCars (process_manufacturer env s m)))
           (filter (\<lambda>c. valid (validate_uncached (currentYear env) c))
              (map (applySecurityTransformations env) cars))"
proof -
  let ?cs = "map (applySecurityTransformations env) cars"
  let ?acc = "filter (\<lambda>c. valid (validate_uncached (currentYear env) c)) ?cs"
  obtain kept v' where fv: "filter_valid (currentYear env) (dataValidator s) ?cs = (kept, v')"
    by (cases "filter_valid (currentYear env) (dataValidator s) ?cs") auto
  have l: "list_all2 (\<lambda>kept c. kept = c \<or> kept = sanitize_in_place c) kept ?acc"
    using filter_valid_coherent [of "dataValidator s" "currentYear env" ?cs] assms(1) fv by auto
  have p: "process_manufacturer env s m =
             \<lparr> allCars = allCars s @ kept, processedCount = processedCount s + length kept,
               dataValidator = v' \<rparr>"
    by (simp add: process_manufacturer_def assms(2) fv Let_def)
  show "processedCount (process_manufacturer env s m) = processedCount s + length ?acc"
    using l by (simp add: p list_all2_lengthD)
  show "take (length (allCars s)) (allCars (process_manufacturer env s m)) = allCars s"
    by (simp add: p)
  show "list_all2 (\<lambda>kept c. kept = c \<or> kept = sanitize_in_place c)
           (drop (length (allCars s)) (allCars (process_manufacturer env s m))) ?acc"
    using l by (simp add: p)
qed


lemma sanitizeString_names:
  "sanitizeString ''Toyota'' = ''Toyota''"
  "sanitizeString ''Camry'' = ''Camry''"
  by code_simp+

lemma toyota_camry_sanitized: "sanitize_in_place toyota_camry = toyota_camry"
  by (simp add: sanitize_in_place_def sanitize_field_def truthy_str_def toyota_camry_def
        empty_car_def sanitizeString_names)

lemma toyota_camry_accepted: "valid (validate_uncached 2026 toyota_camry)"
proof -
  have "year_errors 2026 toyota_camry = []"
    by (simp add: year_errors_def toyota_camry_def empty_car_def)
  then show ?thesis by (simp add: valid_uncached toyota_errors)
qed

lemma out_of_range_car_rejected: "\<not> valid (validate_uncached 2026 out_of_range_car)"
  by (simp add: valid_uncached errors_uncached year_errors_def out_of_range_car_def
        toyota_camry_def empty_car_def)

lemma camry_run:
  "allCars (run_main camry_env camry_input) = [toyota_camry] \<and>
   processedCount (run_main camry_env camry_input) = 1"
proof -
  let ?init = "\<lparr> allCars = [], processedCount = 0, dataValidator = new_DataValidator \<rparr>"
  let ?s1 = "process_manufacturer camry_env ?init ''Toyota''"
  have coh: "\<And>k r. validationCache (dataValidator ?init) k = Some r
               \<Longrightarrow> r = validate_uncached (currentYear camry_env) k"
    by (simp add: new_DataValidator_def)
  have sc: "scraped camry_env ''Toyota'' = Some [toyota_camry, out_of_range_car]"
    by (simp add: camry_env_def)
  have acc: "filter (\<lambda>c. valid (validate_uncached (currentYear camry_env) c))
               (map (applySecurityTransformations camry_env) [toyota_camry, out_of_range_car])
             = [toyota_camry]"
    by (simp add: camry_env_def toyota_camry_accepted out_of_range_car_rejected)
  have n: "processedCount ?s1 = 1"
    using process_accepts(1) [OF coh sc] by (simp only: acc) simp
  have "list_all2 (\<lambda>kept c. kept = c \<or> kept = sanitize_in_place c)
          (drop (length (allCars ?init)) (allCars ?s1)) [toyota_camry]"
    using process_accepts(3) [OF coh sc] by (simp only: acc)
  then have a: "allCars ?s1 = [toyota_camry]"
    by (auto simp add: list_all2_Cons2 toyota_camry_sanitized)
  have honda: "process_manufacturer camry_env ?s1 ''Honda'' = ?s1"
    by (simp add: process_manufacturer_def camry_env_def)
  have l0: "\<not> limit_reached camry_input ?init"
    by (simp add: limit_reached_def camry_input_def)
  have l1: "\<not> limit_reached camry_input ?s1"
    by (simp add: limit_reached_def camry_input_def n)
  have "run_main camry_env camry_input = ?s1"
    by (simp add: run_main_def manufacturers_of_def camry_input_def [THEN arg_cong, of manufacturers]
          l0 l1 honda)
  then show ?thesis using a n by simp
qed

text \<open>
  Claim C10. After the loop, and after every manufacturer on the way, \<open>allCars\<close> has
  exactly \<open>processedCount\<close> elements. A manufacturer whose crawl throws changes nothing;
  for any other, \<open>processedCount\<close> grows by the number of its records that validation
  accepts, and exactly these records, as they are or sanitised in place, are appended to
  \<open>allCars\<close>. So the success rate in the metadata is \<open>100.00%\<close> when a record was accepted
  and \<open>0%\<close> when none was: the run over Toyota and Honda, in which one of the two records
  is rejected and one crawl throws, ends with one car, a count of one and \<open>100.00%\<close>.
\<close>

theorem success_rate_all_or_nothing:
  "length (allCars (run_main env input)) = processedCount (run_main env input) \<and>
   length (allCars (main_loop env input ms
       \<lparr> allCars = [], processedCount = 0, dataValidator = new_DataValidator \<rparr>))
     = processedCount (main_loop env input ms
       \<lparr> allCars = [], processedCount = 0, dataValidator = new_DataValidator \<rparr>) \<and>
   (case scraped env m of
      None \<Rightarrow>
        process_manufacturer env (main_loop env input ms
            \<lparr> allCars = [], processedCount = 0, dataValidator = new_DataValidator \<rparr>) m
          = main_loop env input ms
              \<lparr> allCars = [], processedCount = 0, dataValidator = new_DataValidator \<rparr>
    | Some cars \<Rightarrow>
        processedCount (process_manufacturer env (main_loop env input ms
            \<lparr> allCars = [], processedCount = 0, dataValidator = new_DataValidator \<rparr>) m)
          = processedCount (main_loop env input ms
              \<lparr> allCars = [], processedCount = 0, dataValidator = new_DataValidator \<rparr>)
            + length (filter (\<lambda>c. valid (validate_uncached (currentYear env) c))
                       (map (applySecurityTransformations env) cars)) \<and>
        take (length (allCars (main_loop env input ms
            \<lparr> allCars = [], processedCount = 0, dataValidator = new_DataValidator \<rparr>)))
          (allCars (process_manufacturer env (main_loop env input ms
            \<lparr> allCars = [], processedCount = 0, dataValidator = new_DataValidator \<rparr>) m))
          = allCars (main_loop env input ms
              \<lparr> allCars = [], processedCount = 0, dataValidator = new_DataValidator \<rparr>) \<and>
        list_all2 (\<lambda>kept c. kept = c \<or> kept = sanitize_in_place c)
          (drop (length (allCars (main_loop env input ms
              \<lparr> allCars = [], processedCount = 0, dataValidator = new_DataValidator \<rparr>)))
            (allCars (process_manufacturer env (main_loop env input ms
              \<lparr> allCars = [], processedCount = 0, dataValidator = new_DataValidator \<rparr>) m)))
          (filter (\<lambda>c. valid (validate_uncached (currentYear env) c))
             (map (applySecurityTransformations env) cars))) \<and>
   success_rate env input = (if allCars (run_main env input) = [] then ''0%'' else ''100.00%'') \<and>
   allCars (run_main camry_env camry_input) = [toyota_camry] \<and>
   processedCount (run_main camry_env camry_input) = 1 \<and>
   success_rate camry_env camry_input = ''100.00%''"
proof -
  let ?init = "\<lparr> allCars = [], processedCount = 0, dataValidator = new_DataValidator \<rparr>"
  have inv: "length (allCars (main_loop env' input' ms' ?init))
               = processedCount (main_loop env' input' ms' ?init)" for env' input' ms'
    by (rule main_loop_keeps) simp
  have fin: "length (allCars (run_main env' input')) = processedCount (run_main env' input')"
    for env' input'
    unfolding run_main_def by (rule inv)
  have coh: "\<And>k r. validationCache (dataValidator (main_loop env input ms ?init)) k = Some r
               \<Longrightarrow> r = validate_uncached (currentYear env) k"
    by (rule main_loop_coherent) (simp_all add: new_DataValidator_def)
  have step: "case scraped env m of
      None \<Rightarrow> process_manufacturer env (main_loop env input ms ?init) m = main_loop env input ms ?init
    | Some cars \<Rightarrow>
        processedCount (process_manufacturer env (main_loop env input ms ?init) m)
          = processedCount (main_loop env input ms ?init)
            + length (filter (\<lambda>c. valid (validate_uncached (currentYear env) c))
                       (map (applySecurityTransformations env) cars)) \<and>
        take (length (allCars (main_loop env input ms ?init)))
          (allCars (process_manufacturer env (main_loop env input ms ?init) m))
          = allCars (main_loop env input ms ?init) \<and>
        list_all2 (\<lambda>kept c. kept = c \<or> kept = sanitize_in_place c)
          (drop (length (allCars (main_loop env input ms ?init)))
            (allCars (process_manufacturer env (main_loop env input ms ?init) m)))
          (filter (\<lambda>c. valid (validate_uncached (currentYear env) c))
             (map (applySecurityTransformations env) cars))"
  proof (cases "scraped env m")
    case None
    then show ?thesis by (simp add: process_manufacturer_def)
  next
    case (Some cars)
    show ?thesis
      using process_accepts(1) [OF coh Some] process_accepts(2) [OF coh Some]
            process_accepts(3) [OF coh Some]
      by (simp only: Some option.case)
  qed
  have rate: "success_rate env' input'
                = (if allCars (run_main env' input') = [] then ''0%'' else ''100.00%'')"
    for env' input'
    using fin [of env' input'] by (simp add: success_rate_def successRate_all)
  have camry: "success_rate camry_env camry_input = ''100.00%''"
    by (simp add: rate camry_run)
  from inv [of env input ms] fin [of env input] step rate [of env input] camry_run camry
  show ?thesis by blast
qed


section \<open>Properties of the SecurityMonitor\<close>

lemma recent_after_push:
  "length (recentRequests env st)
     \<le> length (recentRequests env (st\<lparr> auditLog := auditLog st @ [e] \<rparr>))"
  by (simp add: recentRequests_def)

lemma recent_incidents_irrelevant:
  "recentRequests env (st\<lparr> securityIncidents := xs \<rparr>) = recentRequests env st"
  by (simp add: recentRequests_def)

lemma over_limit_diverges:
  "(\<forall>st. maxRequestsPerMinute (thresholds st) < length (recentRequests env st)
        \<longrightarrow> checkThresholds depth env st = None) \<and>
   (\<forall>st t ds. maxRequestsPerMinute (thresholds st) < length (recentRequests env st)
        \<longrightarrow> logEvent depth env t ds st = None)"
proof (induction depth)
  case 0
  show ?case by simp
next
  case (Suc depth)
  have c: "checkThresholds (Suc depth) env st = None"
    if "maxRequestsPerMinute (thresholds st) < length (recentRequests env st)" for st
    using that Suc by (simp add: Let_def)
  have l: "logEvent (Suc depth) env t ds st = None"
    if h: "maxRequestsPerMinute (thresholds st) < length (recentRequests env st)" for st t ds
  proof -
    let ?e = "\<lparr> event_id = randomBytes env (length (auditLog st)), eventType = t,
                 timestamp = date_now env, event_sessionId = sessionId st,
                 details = sanitizeDetails env ds, severity = getEventSeverity t \<rparr>"
    let ?st1 = "st\<lparr> auditLog := auditLog st @ [?e] \<rparr>"
    let ?st2 = "if 3 \<le> getEventSeverity t
                then ?st1\<lparr> securityIncidents := securityIncidents ?st1 @ [?e] \<rparr> else ?st1"
    have "maxRequestsPerMinute (thresholds ?st2) < length (recentRequests env ?st2)"
      using h recent_after_push [of env st ?e]
      by (simp add: recent_incidents_irrelevant)
    then have "checkThresholds depth env ?st2 = None"
      using Suc by blast
    then show ?thesis by (simp add: Let_def)
  qed
  from c l show ?case by blast
qed

lemma request_at_limit_diverges:
  assumes "maxRequestsPerMinute (thresholds st) \<le> length (recentRequests env st)"
  shows "logEvent depth env ''request_made'' ds st = None"
proof (cases depth)
  case 0
  then show ?thesis by simp
next
  case (Suc d)
  let ?e = "\<lparr> event_id = randomBytes env (length (auditLog st)), eventType = ''request_made'',
               timestamp = date_now env, event_sessionId = sessionId st,
               details = sanitizeDetails env ds, severity = getEventSeverity ''request_made'' \<rparr>"
  let ?st1 = "st\<lparr> auditLog := auditLog st @ [?e] \<rparr>"
  have "maxRequestsPerMinute (thresholds ?st1) < length (recentRequests env ?st1)"
    using assms by (simp add: recentRequests_def)
  then have "checkThresholds d env ?st1 = None"
    using over_limit_diverges [of env d] by blast
  then show ?thesis using Suc by (simp add: Let_def getEventSeverity_def)
qed

lemma request_below_limit_returns:
  assumes "length (recentRequests env st) < maxRequestsPerMinute (thresholds st)"
      and "length (securityIncidents st) \<le> maxSecurityIncidents (thresholds st)"
  shows "\<exists>e. logEvent (Suc (Suc d)) env ''request_made'' ds st
              = Some (event_id e, st\<lparr> auditLog := auditLog st @ [e] \<rparr>) \<and>
             eventType e = ''request_made'' \<and> timestamp e = date_now env"
proof -
  let ?e = "\<lparr> event_id = randomBytes env (length (auditLog st)), eventType = ''request_made'',
               timestamp = date_now env, event_sessionId = sessionId st,
               details = sanitizeDetails env ds, severity = getEventSeverity ''request_made'' \<rparr>"
  have "logEvent (Suc (Suc d)) env ''request_made'' ds st
          = Some (event_id ?e, st\<lparr> auditLog := auditLog st @ [?e] \<rparr>)"
    using assms by (simp add: Let_def getEventSeverity_def recentRequests_def)
  then show ?thesis by (intro exI [of _ ?e]) simp
qed

lemma requests_below_limit_return:
  "length (recentRequests env st) + n \<le> maxRequestsPerMinute (thresholds st) \<Longrightarrow>
   length (securityIncidents st) \<le> maxSecurityIncidents (thresholds st) \<Longrightarrow>
   \<exists>st'. log_events (Suc (Suc d)) env ''request_made'' n st = Some st' \<and>
         length (recentRequests env st') = length (recentRequests env st) + n \<and>
         length (auditLog st') = length (auditLog st) + n \<and>
         securityIncidents st' = securityIncidents st \<and>
         thresholds st' = thresholds st"
proof (induction n arbitrary: st)
  case 0
  then show ?case by simp
next
  case (Suc n)
  from Suc.prems obtain e where
    e: "logEvent (Suc (Suc d)) env ''request_made'' [] st
          = Some (event_id e, st\<lparr> auditLog := auditLog st @ [e] \<rparr>)"
       "eventType e = ''request_made''" "timestamp e = date_now env"
    using request_below_limit_returns [of env st d "[]"] by auto
  let ?st1 = "st\<lparr> auditLog := auditLog st @ [e] \<rparr>"
  have r: "length (recentRequests env ?st1) = Suc (length (recentRequests env st))"
    using e(2,3) by (simp add: recentRequests_def)
  have "\<exists>st'. log_events (Suc (Suc d)) env ''request_made'' n ?st1 = Some st' \<and>
         length (recentRequests env st') = length (recentRequests env ?st1) + n \<and>
         length (auditLog st') = length (auditLog ?st1) + n \<and>
         securityIncidents st' = securityIncidents ?st1 \<and>
         thresholds st' = thresholds ?st1"
    using Suc.prems r by (intro Suc.IH) simp_all
  then show ?case
    using r by (simp only: log_events.simps e(1)) auto
qed

lemma log_events_snoc:
  "log_events depth env t (Suc n) st =
     (case log_events depth env t n st of
        None \<Rightarrow> None
      | Some st' \<Rightarrow> map_option snd (logEvent depth env t [] st'))"
proof (induction n arbitrary: st)
  case 0
  show ?case by (auto split: option.splits)
next
  case (Suc n)
  show ?case
  proof (cases "logEvent depth env t [] st")
    case None
    then show ?thesis by simp
  next
    case (Some p)
    obtain i st1 where p: "p = (i, st1)" by (cases p)
    have a: "log_events depth env t (Suc (Suc n)) st = log_events depth env t (Suc n) st1"
      by (simp add: Some p)
    have b: "log_events depth env t (Suc n) st = log_events depth env t n st1"
      by (simp add: Some p)
    show ?thesis by (simp only: a b Suc.IH [of st1])
  qed
qed

lemma log_events_shallow:
  "depth < 2 \<Longrightarrow> log_events depth env t (Suc n) st = None"
proof -
  assume "depth < 2"
  then have "depth = 0 \<or> depth = Suc 0" by auto
  then show ?thesis by (auto simp add: Let_def)
qed

text \<open>
  Claim C1, as the code behaves. On a new monitor, 30 calls of \<open>logEvent\<close> for
  \<open>request_made\<close> at one time of the clock return, with a call stack of two frames or
  any deeper one, and leave 30 events and no incident. The 31st call does not return
  however deep the call stack is: the threshold check logs \<open>rate_limit_exceeded\<close>, whose
  own threshold check finds the same 31 requests and logs again, without end.
\<close>

theorem rate_limit_recursion_diverges:
  "(\<exists>st. log_events (Suc (Suc d)) env ''request_made'' 30 (new_SecurityMonitor start) = Some st \<and>
         length (auditLog st) = 30 \<and> securityIncidents st = []) \<and>
   log_events depth env ''request_made'' 31 (new_SecurityMonitor start) = None"
proof -
  let ?new = "new_SecurityMonitor start"
  have new: "length (recentRequests env ?new) + 30 \<le> maxRequestsPerMinute (thresholds ?new)"
            "length (securityIncidents ?new) \<le> maxSecurityIncidents (thresholds ?new)"
    by (simp_all add: new_SecurityMonitor_def recentRequests_def)
  have thirty: "\<exists>st'. log_events (Suc (Suc d')) env ''request_made'' 30 ?new = Some st' \<and>
         length (recentRequests env st') = length (recentRequests env ?new) + 30 \<and>
         length (auditLog st') = length (auditLog ?new) + 30 \<and>
         securityIncidents st' = securityIncidents ?new \<and>
         thresholds st' = thresholds ?new" for d'
    using new by (rule requests_below_limit_return)
  have first: "\<exists>st. log_events (Suc (Suc d)) env ''request_made'' 30 ?new = Some st \<and>
         length (auditLog st) = 30 \<and> securityIncidents st = []"
    using thirty [of d] by (auto simp add: new_SecurityMonitor_def)
  have second: "log_events depth env ''request_made'' 31 ?new = None"
  proof (cases "depth < 2")
    case True
    have "(31::nat) = Suc 30" by simp
    then show ?thesis using log_events_shallow [OF True] by metis
  next
    case False
    then obtain d' where d': "depth = Suc (Suc d')"
      by (metis One_nat_def Suc_1 less_Suc_eq not0_implies_Suc)
    from thirty [of d'] obtain st' where
      st': "log_events depth env ''request_made'' 30 ?new = Some st'"
           "length (recentRequests env st') = length (recentRequests env ?new) + 30"
           "thresholds st' = thresholds ?new"
      unfolding d' by blast
    have "maxRequestsPerMinute (thresholds st') \<le> length (recentRequests env st')"
      using st'(2,3) by (simp add: new_SecurityMonitor_def)
    then have "logEvent depth env ''request_made'' [] st' = None"
      by (rule request_at_limit_diverges)
    moreover have "(31::nat) = Suc 30" by simp
    ultimately show ?thesis
      using st'(1) by (simp only: log_events_snoc) simp
  qed
  from first second show ?thesis by blast
qed

end
